theory Spec2Isabelle
  imports Main
begin

section \<open>Data model\<close>

text \<open>
  The server keeps its state in one PostgreSQL database, reached through an
  \<^verbatim>\<open>Executor\<close>.  The model passes that database around as a record: the three
  domain tables of the Row Store, the client and client-group tables written
  by \<^verbatim>\<open>push.ts\<close>, and the two CVR tables read and written by \<^verbatim>\<open>pull/cvr.ts\<close>.
  JavaScript numbers that hold versions, orders and mutation ids are integers
  here; a SQL table is the list of its rows in scan order.
\<close>

datatype table = Issue | Description | Comment

text \<open>\<^verbatim>\<open>TableOrdinal = {issue: 1, description: 2, comment: 3}\<close>\<close>

fun TableOrdinal :: "table \<Rightarrow> int" where
  "TableOrdinal Issue = 1"
| "TableOrdinal Description = 2"
| "TableOrdinal Comment = 3"

text \<open>
  A row of a domain table: the columns \<^verbatim>\<open>id\<close> and \<^verbatim>\<open>rowversion\<close> that the CVR
  queries read, and the remaining columns as one opaque value.
\<close>

record 'v domain_row =
  dr_id :: string
  dr_rowversion :: int
  dr_fields :: 'v

type_synonym 'v rows = "table \<Rightarrow> 'v domain_row list"

text \<open>Columns of \<^verbatim>\<open>cvr_entry\<close> and of \<^verbatim>\<open>cvr_delete_entry\<close>.\<close>

record cvr_entry_row =
  ce_client_group_id :: string
  ce_order :: int
  ce_tbl :: int
  ce_row_id :: string
  ce_row_version :: int

record cvr_delete_entry_row =
  cd_client_group_id :: string
  cd_order :: int
  cd_tbl :: int
  cd_row_id :: string

text \<open>The objects \<^verbatim>\<open>nextClientGroup\<close> and \<^verbatim>\<open>nextClient\<close> of \<^verbatim>\<open>processMutation\<close>.\<close>

record client_group_row =
  cg_id :: string
  cg_cvrVersion :: int
  cg_clientVersion :: int

record client_row =
  cl_id :: string
  cl_clientGroupID :: string
  cl_lastMutationID :: int
  cl_clientVersion :: int

record 'v db =
  rowstore :: "'v rows"
  client_group :: "string \<rightharpoonup> client_group_row"
  client :: "string \<rightharpoonup> client_row"
  cvr_entry :: "cvr_entry_row list"
  cvr_delete_entry :: "cvr_delete_entry_row list"

text \<open>
  What a call can throw: the \<^verbatim>\<open>ZodError\<close> of a request that fails
  \<^verbatim>\<open>pushRequestSchema\<close>, the \<^verbatim>\<open>Error\<close> of a mutation from the future,
  PostgreSQL's cardinality violation, and its refusal of a statement in a
  transaction that has failed.  A call either returns a value or throws, and
  leaves a database behind in both cases.
\<close>

datatype error =
  ZodError | FutureMutation int | CardinalityViolation | InFailedSqlTransaction

datatype 'r outcome = Returned 'r | Threw error


section \<open>The CVR queries of \<^verbatim>\<open>pull/cvr.ts\<close>\<close>

text \<open>
  \<^verbatim>\<open>findUnsentItems\<close>:
  \<^verbatim>\<open>SELECT * FROM t WHERE (t.id, t.rowversion) NOT IN
     (SELECT row_id, row_version FROM cvr_entry
      WHERE client_group_id = $1 AND order <= $2 AND tbl = $3) LIMIT $4\<close>.
  The columns are not nullable, so \<^verbatim>\<open>NOT IN\<close> is plain non-membership; the
  limit is a natural number and cuts the rows in scan order.
\<close>

definition cvr_entry_subquery :: "'v db \<Rightarrow> string \<Rightarrow> int \<Rightarrow> int \<Rightarrow> (string \<times> int) list" where
  "cvr_entry_subquery ex clientGroupID ord tblOrdinal =
     map (\<lambda>e. (ce_row_id e, ce_row_version e))
       (filter (\<lambda>e. ce_client_group_id e = clientGroupID \<and> ce_order e \<le> ord
                    \<and> ce_tbl e = tblOrdinal) (cvr_entry ex))"

definition findUnsentItems ::
  "'v db \<Rightarrow> table \<Rightarrow> string \<Rightarrow> int \<Rightarrow> nat \<Rightarrow> 'v domain_row list" where
  "findUnsentItems ex tbl clientGroupID ord lim =
     take lim
       (filter (\<lambda>t. (dr_id t, dr_rowversion t)
                     \<notin> set (cvr_entry_subquery ex clientGroupID ord (TableOrdinal tbl)))
          (rowstore ex tbl))"

text \<open>
  \<^verbatim>\<open>findDeletions\<close>:
  \<^verbatim>\<open>SELECT row_id FROM cvr_entry WHERE tbl = $1
     AND NOT EXISTS (SELECT 1 FROM t WHERE id = cvr_entry.row_id)
     AND client_group_id = $2 AND order <= $3
     AND NOT EXISTS (SELECT 1 FROM cvr_delete_entry d WHERE d.tbl = $1
        AND d.row_id = cvr_entry.row_id AND d.client_group_id = $2
        AND d.order <= $3) LIMIT $4\<close>.
\<close>

definition findDeletions ::
  "'v db \<Rightarrow> table \<Rightarrow> string \<Rightarrow> int \<Rightarrow> nat \<Rightarrow> string list" where
  "findDeletions ex tbl clientGroupID ord lim =
     take lim
       (map ce_row_id
          (filter (\<lambda>e. ce_tbl e = TableOrdinal tbl
                    \<and> \<not> list_ex (\<lambda>t. dr_id t = ce_row_id e) (rowstore ex tbl)
                    \<and> ce_client_group_id e = clientGroupID
                    \<and> ce_order e \<le> ord
                    \<and> \<not> list_ex (\<lambda>d. cd_tbl d = TableOrdinal tbl
                                    \<and> cd_row_id d = ce_row_id e
                                    \<and> cd_client_group_id d = clientGroupID
                                    \<and> cd_order d \<le> ord) (cvr_delete_entry ex))
             (cvr_entry ex)))"

text \<open>
  \<^verbatim>\<open>dropCVREntries\<close>: two \<^verbatim>\<open>DELETE ... WHERE client_group_id = $1 AND order > $2\<close>,
  one on each CVR table.
\<close>

definition dropCVREntries :: "'v db \<Rightarrow> string \<Rightarrow> int \<Rightarrow> 'v db" where
  "dropCVREntries ex clientGroupID ord =
     ex\<lparr>cvr_entry :=
          filter (\<lambda>e. \<not> (ce_client_group_id e = clientGroupID \<and> ce_order e > ord))
            (cvr_entry ex),
        cvr_delete_entry :=
          filter (\<lambda>d. \<not> (cd_client_group_id d = clientGroupID \<and> cd_order d > ord))
            (cvr_delete_entry ex)\<rparr>"

text \<open>
  \<^verbatim>\<open>recordUpdates\<close>.  The loop adds, for the update at index \<open>i\<close>, the tuple
  \<^verbatim>\<open>($5i+1, $5i+2, $5i+3, $5i+4, $5i+5)\<close> to the \<^verbatim>\<open>VALUES\<close> list and the five
  parameters \<^verbatim>\<open>clientGroupID, order, TableOrdinal[table], id, rowversion\<close> to
  \<^verbatim>\<open>values\<close>: the statement proposes one row per update, in array order.
\<close>

fun recordUpdates_values ::
  "table \<Rightarrow> string \<Rightarrow> int \<Rightarrow> 'v domain_row list \<Rightarrow> cvr_entry_row list" where
  "recordUpdates_values tbl clientGroupID ord [] = []"
| "recordUpdates_values tbl clientGroupID ord (u # updates) =
     \<lparr>ce_client_group_id = clientGroupID, ce_order = ord, ce_tbl = TableOrdinal tbl,
      ce_row_id = dr_id u, ce_row_version = dr_rowversion u\<rparr>
     # recordUpdates_values tbl clientGroupID ord updates"

text \<open>
  The conflict target \<^verbatim>\<open>("client_group_id", "tbl", "row_id")\<close> of the statement,
  which is the unique index of \<^verbatim>\<open>cvr_entry\<close>.
\<close>

definition conflict_key :: "cvr_entry_row \<Rightarrow> string \<times> int \<times> string" where
  "conflict_key e = (ce_client_group_id e, ce_tbl e, ce_row_id e)"

text \<open>
  One proposed row of \<^verbatim>\<open>INSERT ... ON CONFLICT (...) DO UPDATE SET
  row_version = excluded.row_version, order = excluded.order\<close>: a stored row
  with the same key takes the proposed version and order, otherwise the
  proposed row is added.
\<close>

definition insert_on_conflict :: "cvr_entry_row list \<Rightarrow> cvr_entry_row \<Rightarrow> cvr_entry_row list" where
  "insert_on_conflict es v =
     (if list_ex (\<lambda>e. conflict_key e = conflict_key v) es
      then map (\<lambda>e. if conflict_key e = conflict_key v
                     then e\<lparr>ce_row_version := ce_row_version v, ce_order := ce_order v\<rparr>
                     else e) es
      else es @ [v])"

text \<open>
  The whole statement.  With no update the function returns before building
  it.  PostgreSQL refuses an \<^verbatim>\<open>ON CONFLICT DO UPDATE\<close> whose proposed rows
  repeat a key (the command "cannot affect row a second time"), and a
  refused statement changes nothing.
\<close>

definition recordUpdates ::
  "'v db \<Rightarrow> table \<Rightarrow> string \<Rightarrow> int \<Rightarrow> 'v domain_row list \<Rightarrow> unit outcome \<times> 'v db" where
  "recordUpdates ex tbl clientGroupID ord updates =
     (if updates = [] then (Returned (), ex)
      else let vals = recordUpdates_values tbl clientGroupID ord updates in
        if \<not> distinct (map conflict_key vals) then (Threw CardinalityViolation, ex)
        else (Returned (), ex\<lparr>cvr_entry := foldl insert_on_conflict (cvr_entry ex) vals\<rparr>))"

text \<open>
  \<^verbatim>\<open>recordDeletes\<close>: a plain \<^verbatim>\<open>INSERT INTO cvr_delete_entry\<close> of one row
  \<^verbatim>\<open>(clientGroupID, order, TableOrdinal[table], ids[i])\<close> per id.
\<close>

fun recordDeletes_values ::
  "table \<Rightarrow> string \<Rightarrow> int \<Rightarrow> string list \<Rightarrow> cvr_delete_entry_row list" where
  "recordDeletes_values tbl clientGroupID ord [] = []"
| "recordDeletes_values tbl clientGroupID ord (i # ids) =
     \<lparr>cd_client_group_id = clientGroupID, cd_order = ord, cd_tbl = TableOrdinal tbl,
      cd_row_id = i\<rparr>
     # recordDeletes_values tbl clientGroupID ord ids"

definition recordDeletes :: "'v db \<Rightarrow> table \<Rightarrow> string \<Rightarrow> int \<Rightarrow> string list \<Rightarrow> 'v db" where
  "recordDeletes ex tbl clientGroupID ord ids =
     (if ids = [] then ex
      else ex\<lparr>cvr_delete_entry :=
                cvr_delete_entry ex @ recordDeletes_values tbl clientGroupID ord ids\<rparr>)"


section \<open>The push pipeline of \<^verbatim>\<open>push.ts\<close>\<close>

record 'v mutation =
  m_id :: int
  m_clientID :: string
  m_name :: string
  m_args :: 'v

record 'v push_request =
  clientGroupID :: string
  mutations :: "'v mutation list"

text \<open>
  What \<^verbatim>\<open>mutate\<close> reads of the parsed arguments: an issue update has an
  \<^verbatim>\<open>id\<close>, its \<^verbatim>\<open>issueChanges\<close> and an optional \<^verbatim>\<open>descriptionChange\<close>; a comment
  has an \<^verbatim>\<open>id\<close>.
\<close>

record 'v issue_update =
  upd_id :: string
  issueChanges :: 'v
  descriptionChange :: "'v option"

record 'v comment_args =
  comment_id :: string
  comment_fields :: 'v

text \<open>
  The modules \<^verbatim>\<open>shared\<close> and \<^verbatim>\<open>./data\<close> are imported by \<^verbatim>\<open>push.ts\<close> and are
  parameters of the model: the list \<^verbatim>\<open>mutationNames\<close>, the three schemas
  (\<open>Inl\<close> is the text of the error that \<^verbatim>\<open>parse\<close> throws) and the six writes to
  the Row Store.

  Modelled from the spec: the six writes of \<^verbatim>\<open>./data\<close>, which is not among the
  sources.  The Row Store is "accessed through a row-versioned read/write
  interface": each write is one SQL statement that the function sends through
  the executor as soon as it is called, and it throws exactly when PostgreSQL
  refuses that statement (\<open>Inl\<close> is the text of the error).
\<close>

record 'v env =
  mutationNames :: "string list"
  issueWithDescriptionSchema :: "'v \<Rightarrow> string + ('v \<times> 'v)"
  issueUpdateWithIDSchema :: "'v \<Rightarrow> string + 'v issue_update list"
  commentSchema :: "'v \<Rightarrow> string + 'v comment_args"
  putIssue :: "'v \<Rightarrow> 'v rows \<Rightarrow> string + 'v rows"
  putDescription :: "'v \<Rightarrow> 'v rows \<Rightarrow> string + 'v rows"
  updateIssue :: "string \<Rightarrow> 'v \<Rightarrow> 'v rows \<Rightarrow> string + 'v rows"
  updateDescription :: "string \<Rightarrow> 'v \<Rightarrow> 'v rows \<Rightarrow> string + 'v rows"
  createComment :: "'v comment_args \<Rightarrow> 'v rows \<Rightarrow> string + 'v rows"
  deleteComment :: "string \<Rightarrow> 'v rows \<Rightarrow> string + 'v rows"

text \<open>
  The \<^verbatim>\<open>Executor\<close> that \<^verbatim>\<open>transact\<close> hands to its callback is one connection
  inside one PostgreSQL transaction: the database as the transaction sees it,
  whether a statement of the transaction has failed, and the statements that
  callbacks nobody awaits will still send on the connection.
\<close>

record 'v tx =
  tx_db :: "'v db"
  tx_failed :: bool
  tx_pending :: "('v rows \<Rightarrow> string + 'v rows) list"

definition tx_begin :: "'v db \<Rightarrow> 'v tx" where
  "tx_begin ex = \<lparr>tx_db = ex, tx_failed = False, tx_pending = []\<rparr>"

text \<open>
  One statement on the Row Store.  A statement that PostgreSQL refuses changes
  nothing and leaves the transaction failed; in a failed transaction every
  further statement is refused (SQLSTATE 25P02).  The result is the text of
  the error, if any.
\<close>

definition executor ::
  "('v rows \<Rightarrow> string + 'v rows) \<Rightarrow> 'v tx \<Rightarrow> string option \<times> 'v tx" where
  "executor stmt tx =
     (if tx_failed tx
      then (Some ''current transaction is aborted, commands ignored until end of transaction block'',
            tx)
      else (case stmt (rowstore (tx_db tx)) of
              Inl e \<Rightarrow> (Some e, tx\<lparr>tx_failed := True\<rparr>)
            | Inr rs \<Rightarrow> (None, tx\<lparr>tx_db := (tx_db tx)\<lparr>rowstore := rs\<rparr>\<rparr>)))"

text \<open>
  The callback that \<^verbatim>\<open>updates.map\<close> starts for one update.  \<^verbatim>\<open>map\<close> calls it at
  once, so its \<^verbatim>\<open>updateIssue\<close> statement is sent before the callback of the
  next update starts; the connection serves its statements in the order they
  were sent.  \<^verbatim>\<open>mutate\<close> does not await the promise: when the statement is
  refused the promise is rejected and nobody sees it, the transaction being
  left failed; when it succeeds and there is a \<^verbatim>\<open>descriptionChange\<close>, the
  callback goes on later and sends \<^verbatim>\<open>updateDescription\<close>, after every statement
  that has been sent by then.  The runtime's report of a rejection nobody
  handles is not part of the stored state and is left out.
\<close>

definition updateIssues_callback :: "'v env \<Rightarrow> 'v tx \<Rightarrow> 'v issue_update \<Rightarrow> 'v tx" where
  "updateIssues_callback env tx u =
     (case executor (updateIssue env (upd_id u) (issueChanges u)) tx of
        (Some e, tx1) \<Rightarrow> tx1
      | (None, tx1) \<Rightarrow>
          (case descriptionChange u of
             None \<Rightarrow> tx1
           | Some dc \<Rightarrow>
               tx1\<lparr>tx_pending := tx_pending tx1 @ [updateDescription env (upd_id u) dc]\<rparr>))"

text \<open>
  \<^verbatim>\<open>mutate\<close>: the \<^verbatim>\<open>switch\<close> on the name, which has no \<^verbatim>\<open>default\<close>.  The result
  is the text of the error thrown, if any, and the transaction at that moment.
  A schema that rejects the arguments throws before any statement is sent.
\<close>

definition mutate :: "'v env \<Rightarrow> 'v mutation \<Rightarrow> 'v tx \<Rightarrow> string option \<times> 'v tx" where
  "mutate env mutation tx =
     (if m_name mutation = ''putIssue'' then
        (case issueWithDescriptionSchema env (m_args mutation) of
           Inl e \<Rightarrow> (Some e, tx)
         | Inr (issue, description) \<Rightarrow>
             (case executor (putIssue env issue) tx of
                (Some e, tx1) \<Rightarrow> (Some e, tx1)
              | (None, tx1) \<Rightarrow> executor (putDescription env description) tx1))
      else if m_name mutation = ''updateIssues'' then
        (case issueUpdateWithIDSchema env (m_args mutation) of
           Inl e \<Rightarrow> (Some e, tx)
         | Inr updates \<Rightarrow> (None, foldl (updateIssues_callback env) tx updates))
      else if m_name mutation = ''putIssueComment'' then
        (case commentSchema env (m_args mutation) of
           Inl e \<Rightarrow> (Some e, tx)
         | Inr c \<Rightarrow> executor (createComment env c) tx)
      else if m_name mutation = ''deleteIssueComment'' then
        (case commentSchema env (m_args mutation) of
           Inl e \<Rightarrow> (Some e, tx)
         | Inr c \<Rightarrow> executor (deleteComment env (comment_id c)) tx)
      else (None, tx))"

text \<open>
  Modelled from the spec: \<^verbatim>\<open>getClientGroupForUpdate\<close>, \<^verbatim>\<open>getClientForUpdate\<close>,
  \<^verbatim>\<open>putClientGroup\<close> and \<^verbatim>\<open>putClient\<close> of \<^verbatim>\<open>./data\<close>, which is not among the
  sources.  Rows are "created lazily on first push referencing an unseen id,
  with zero version numbers", and the two puts "write back" the rows they are
  given.
\<close>

definition getClientGroupForUpdate :: "'v db \<Rightarrow> string \<Rightarrow> client_group_row" where
  "getClientGroupForUpdate ex cgid =
     (case client_group ex cgid of
        Some g \<Rightarrow> g
      | None \<Rightarrow> \<lparr>cg_id = cgid, cg_cvrVersion = 0, cg_clientVersion = 0\<rparr>)"

definition getClientForUpdate :: "'v db \<Rightarrow> string \<Rightarrow> client_row" where
  "getClientForUpdate ex cid =
     (case client ex cid of
        Some c \<Rightarrow> c
      | None \<Rightarrow> \<lparr>cl_id = cid, cl_clientGroupID = [], cl_lastMutationID = 0,
                 cl_clientVersion = 0\<rparr>)"

definition putClientGroup :: "'v db \<Rightarrow> client_group_row \<Rightarrow> 'v db" where
  "putClientGroup ex g = ex\<lparr>client_group := (client_group ex)(cg_id g \<mapsto> g)\<rparr>"

definition putClient :: "'v db \<Rightarrow> client_row \<Rightarrow> 'v db" where
  "putClient ex c = ex\<lparr>client := (client ex)(cl_id c \<mapsto> c)\<rparr>"

text \<open>
  The statements that callbacks nobody awaited send after the callback of
  \<^verbatim>\<open>transact\<close> has returned its last awaited statement: they reach the
  connection before \<^verbatim>\<open>COMMIT\<close>, in the order their callbacks were started.
\<close>

definition run_pending :: "'v tx \<Rightarrow> 'v tx" where
  "run_pending tx =
     foldl (\<lambda>t stmt. snd (executor stmt t)) (tx\<lparr>tx_pending := []\<rparr>) (tx_pending tx)"

text \<open>
  Modelled from the spec: \<^verbatim>\<open>transact\<close> of \<^verbatim>\<open>./pg\<close>, which is not among the
  sources.  "All work for one mutation happens atomically", with "scoped
  transaction acquisition with guaranteed resource release on every exit
  path": \<^verbatim>\<open>BEGIN\<close>, the callback, then \<^verbatim>\<open>ROLLBACK\<close> when the callback threw, the
  error going on to the caller, and \<^verbatim>\<open>COMMIT\<close> when it returned.  PostgreSQL
  answers the \<^verbatim>\<open>COMMIT\<close> of a failed transaction by rolling it back, without an
  error, so the caller still gets what the callback returned.
\<close>

definition transact :: "('v tx \<Rightarrow> 'r outcome \<times> 'v tx) \<Rightarrow> 'v db \<Rightarrow> 'r outcome \<times> 'v db" where
  "transact body ex =
     (case body (tx_begin ex) of
        (Threw e, tx) \<Rightarrow> (Threw e, ex)
      | (Returned r, tx) \<Rightarrow>
          (let tx' = run_pending tx
           in (Returned r, if tx_failed tx' then ex else tx_db tx')))"

text \<open>
  \<^verbatim>\<open>processMutation\<close>.  The result \<open>None\<close> is \<^verbatim>\<open>null\<close> and \<open>Some e\<close> is
  \<^verbatim>\<open>{error: e}\<close>; the argument \<open>error\<close> is \<open>None\<close> for \<^verbatim>\<open>null\<close>.  The two reads
  are the first statements of the transaction.  \<^verbatim>\<open>putClientGroup\<close> and
  \<^verbatim>\<open>putClient\<close> are awaited: in a failed transaction they are refused and the
  callback throws.
\<close>

definition processMutation_body ::
  "'v env \<Rightarrow> string \<Rightarrow> 'v mutation \<Rightarrow> string option \<Rightarrow> 'v tx
     \<Rightarrow> string option outcome \<times> 'v tx" where
  "processMutation_body env cgid mutation error executor_tx =
     (let baseClientGroup = getClientGroupForUpdate (tx_db executor_tx) cgid;
          baseClient = getClientForUpdate (tx_db executor_tx) (m_clientID mutation);
          nextClientVersion = cg_clientVersion baseClientGroup + 1;
          nextMutationID = cl_lastMutationID baseClient + 1
      in
        if m_id mutation < nextMutationID then (Returned None, executor_tx)
        else if m_id mutation > nextMutationID
          then (Threw (FutureMutation (m_id mutation)), executor_tx)
        else
          (case (if error = None then mutate env mutation executor_tx
                 else (None, executor_tx)) of
             (Some e, tx1) \<Rightarrow> (Returned (Some e), tx1)
           | (None, tx1) \<Rightarrow>
               (let nextClientGroup =
                      \<lparr>cg_id = cgid, cg_cvrVersion = cg_cvrVersion baseClientGroup,
                       cg_clientVersion = nextClientVersion\<rparr>;
                    nextClient =
                      \<lparr>cl_id = m_clientID mutation, cl_clientGroupID = cgid,
                       cl_lastMutationID = nextMutationID,
                       cl_clientVersion = nextClientVersion\<rparr>
                in if tx_failed tx1 then (Threw InFailedSqlTransaction, tx1)
                   else (Returned None,
                         tx1\<lparr>tx_db := putClient (putClientGroup (tx_db tx1) nextClientGroup)
                                         nextClient\<rparr>))))"

definition processMutation ::
  "'v env \<Rightarrow> string \<Rightarrow> 'v mutation \<Rightarrow> string option \<Rightarrow> 'v db
     \<Rightarrow> string option outcome \<times> 'v db" where
  "processMutation env cgid mutation error =
     transact (processMutation_body env cgid mutation error)"

text \<open>
  The loop of \<^verbatim>\<open>push\<close>: each mutation is processed with \<^verbatim>\<open>null\<close>, and once more
  with the error when the first call returned \<^verbatim>\<open>{error}\<close>; a call that throws
  ends the loop.
\<close>

fun push_loop :: "'v env \<Rightarrow> string \<Rightarrow> 'v mutation list \<Rightarrow> 'v db \<Rightarrow> unit outcome \<times> 'v db" where
  "push_loop env cgid [] ex = (Returned (), ex)"
| "push_loop env cgid (mutation # rest) ex =
     (case processMutation env cgid mutation None ex of
        (Threw e, ex1) \<Rightarrow> (Threw e, ex1)
      | (Returned None, ex1) \<Rightarrow> push_loop env cgid rest ex1
      | (Returned (Some err), ex1) \<Rightarrow>
          (case processMutation env cgid mutation (Some err) ex1 of
             (Threw e, ex2) \<Rightarrow> (Threw e, ex2)
           | (Returned r, ex2) \<Rightarrow> push_loop env cgid rest ex2))"

text \<open>
  \<^verbatim>\<open>push\<close>.  The request body is taken as already decoded into its fields;
  of \<^verbatim>\<open>pushRequestSchema.parse\<close> the model keeps the check that can still fail,
  \<^verbatim>\<open>name: z.enum(mutationNames)\<close> on every mutation.  The poke and the logging
  touch no stored state and are left out.
\<close>

definition pushRequestSchema :: "'v env \<Rightarrow> 'v push_request \<Rightarrow> error + 'v push_request" where
  "pushRequestSchema env requestBody =
     (if list_all (\<lambda>m. m_name m \<in> set (mutationNames env)) (mutations requestBody)
      then Inr requestBody else Inl ZodError)"

definition push :: "'v env \<Rightarrow> 'v push_request \<Rightarrow> 'v db \<Rightarrow> unit outcome \<times> 'v db" where
  "push env requestBody ex =
     (case pushRequestSchema env requestBody of
        Inl e \<Rightarrow> (Threw e, ex)
      | Inr p \<Rightarrow> push_loop env (clientGroupID p) (mutations p) ex)"


section \<open>Example states\<close>

text \<open>
  A store with two issues.  Group \<open>g1\<close> has seen \<open>i1\<close> at version 1 (it is now
  at version 2), \<open>i2\<close> at its current version, and two issues that are gone,
  \<open>i3\<close> and \<open>i4\<close>; the deletion of \<open>i4\<close> has been recorded.  Group \<open>g2\<close> has one
  entry at order 3, and group \<open>g3\<close> has none.
\<close>

definition example_store :: "string db" where
  "example_store =
     \<lparr>rowstore = (\<lambda>t. if t = Issue
         then [\<lparr>dr_id = ''i1'', dr_rowversion = 2, dr_fields = ''first''\<rparr>,
               \<lparr>dr_id = ''i2'', dr_rowversion = 1, dr_fields = ''second''\<rparr>]
         else []),
      client_group = Map.empty,
      client = Map.empty,
      cvr_entry =
        [\<lparr>ce_client_group_id = ''g1'', ce_order = 1, ce_tbl = 1, ce_row_id = ''i1'',
          ce_row_version = 1\<rparr>,
         \<lparr>ce_client_group_id = ''g1'', ce_order = 1, ce_tbl = 1, ce_row_id = ''i2'',
          ce_row_version = 1\<rparr>,
         \<lparr>ce_client_group_id = ''g1'', ce_order = 1, ce_tbl = 1, ce_row_id = ''i3'',
          ce_row_version = 1\<rparr>,
         \<lparr>ce_client_group_id = ''g1'', ce_order = 2, ce_tbl = 1, ce_row_id = ''i4'',
          ce_row_version = 1\<rparr>,
         \<lparr>ce_client_group_id = ''g2'', ce_order = 3, ce_tbl = 1, ce_row_id = ''i1'',
          ce_row_version = 2\<rparr>],
      cvr_delete_entry =
        [\<lparr>cd_client_group_id = ''g1'', cd_order = 2, cd_tbl = 1, cd_row_id = ''i4''\<rparr>,
         \<lparr>cd_client_group_id = ''g2'', cd_order = 3, cd_tbl = 1, cd_row_id = ''i9''\<rparr>]\<rparr>"


text \<open>
  An instance of the two modules that \<^verbatim>\<open>push.ts\<close> imports.  The vocabulary
  has a fifth name, \<open>deleteIssues\<close>, for which \<^verbatim>\<open>mutate\<close> has no case.  Empty
  arguments fail every schema.  The arguments of \<open>updateIssues\<close> are one update
  of the issue named by their first two characters, with a description change
  when they are longer than that.  The description table refuses a
  description of more than four characters, and the issue table refuses a
  change of more than six.
\<close>

definition example_env :: "string env" where
  "example_env =
     \<lparr>mutationNames =
        [''putIssue'', ''updateIssues'', ''deleteIssues'', ''putIssueComment'',
         ''deleteIssueComment''],
      issueWithDescriptionSchema =
        (\<lambda>a. if a = [] then Inl ''invalid arguments'' else Inr (a, a)),
      issueUpdateWithIDSchema =
        (\<lambda>a. if a = [] then Inl ''invalid arguments''
             else Inr [\<lparr>upd_id = take 2 a, issueChanges = a,
                        descriptionChange = (if length a > 2 then Some a else None)\<rparr>]),
      commentSchema =
        (\<lambda>a. if a = [] then Inl ''invalid arguments''
             else Inr \<lparr>comment_id = a, comment_fields = a\<rparr>),
      putIssue =
        (\<lambda>i rs. Inr (rs(Issue := rs Issue
                   @ [\<lparr>dr_id = i, dr_rowversion = 1, dr_fields = i\<rparr>]))),
      putDescription =
        (\<lambda>d rs. if length d > 4 then Inl ''description rejected''
                else Inr (rs(Description := rs Description
                   @ [\<lparr>dr_id = d, dr_rowversion = 1, dr_fields = d\<rparr>]))),
      updateIssue =
        (\<lambda>i c rs. if length c > 6 then Inl ''issue rejected''
                  else Inr (rs(Issue := map (\<lambda>t. if dr_id t = i
                     then t\<lparr>dr_rowversion := dr_rowversion t + 1, dr_fields := c\<rparr> else t)
                     (rs Issue)))),
      updateDescription =
        (\<lambda>i c rs. if length c > 4 then Inl ''description rejected''
                  else Inr (rs(Description := rs Description
                     @ [\<lparr>dr_id = i, dr_rowversion = 1, dr_fields = c\<rparr>]))),
      createComment =
        (\<lambda>c rs. Inr (rs(Comment := rs Comment
                   @ [\<lparr>dr_id = comment_id c, dr_rowversion = 1,
                       dr_fields = comment_fields c\<rparr>]))),
      deleteComment =
        (\<lambda>i rs. Inr (rs(Comment := filter (\<lambda>t. dr_id t \<noteq> i) (rs Comment))))\<rparr>"

text \<open>A mutation of client \<open>c1\<close>.\<close>

definition example_mutation :: "int \<Rightarrow> string \<Rightarrow> string \<Rightarrow> string mutation" where
  "example_mutation i n a = \<lparr>m_id = i, m_clientID = ''c1'', m_name = n, m_args = a\<rparr>"

text \<open>
  The example store after mutation 1 of client \<open>c1\<close> in group \<open>g1\<close>, which
  added the comment \<open>k1\<close>, has been processed.
\<close>

definition example_store_pushed :: "string db" where
  "example_store_pushed =
     example_store
       \<lparr>rowstore := (rowstore example_store)
          (Comment := [\<lparr>dr_id = ''k1'', dr_rowversion = 1, dr_fields = ''k1''\<rparr>]),
        client_group :=
          [''g1'' \<mapsto> \<lparr>cg_id = ''g1'', cg_cvrVersion = 0, cg_clientVersion = 1\<rparr>],
        client :=
          [''c1'' \<mapsto> \<lparr>cl_id = ''c1'', cl_clientGroupID = ''g1'', cl_lastMutationID = 1,
                      cl_clientVersion = 1\<rparr>]\<rparr>"

section \<open>The CVR differ and the CVR store\<close>

lemma in_cvr_entry_subquery:
  "(i, v) \<in> set (cvr_entry_subquery ex g ord k) \<longleftrightarrow>
     (\<exists>e \<in> set (cvr_entry ex). ce_client_group_id e = g \<and> ce_order e \<le> ord \<and> ce_tbl e = k
        \<and> ce_row_id e = i \<and> ce_row_version e = v)"
  by (auto simp: cvr_entry_subquery_def)

text \<open>
  C6.  \<^verbatim>\<open>findUnsentItems\<close> returns the rows of the table for which no
  \<^verbatim>\<open>cvr_entry\<close> row of the client group at an order up to the base order has
  the same id and the same row version, cut to the first \<open>lim\<close> of them.  For
  a group without any entry, base order 0 and a limit of at least the size of
  the table, the result is the whole table.
\<close>

theorem findUnsentItems_exact:
  "findUnsentItems ex tbl g ord lim =
     take lim (filter (\<lambda>t. \<not> (\<exists>e \<in> set (cvr_entry ex).
                  ce_client_group_id e = g \<and> ce_order e \<le> ord \<and> ce_tbl e = TableOrdinal tbl
                  \<and> ce_row_id e = dr_id t \<and> ce_row_version e = dr_rowversion t))
               (rowstore ex tbl))
   \<and> length (findUnsentItems ex tbl g ord lim) \<le> lim
   \<and> ((\<forall>e \<in> set (cvr_entry ex). ce_client_group_id e \<noteq> g) \<and> length (rowstore ex tbl) \<le> lim
        \<longrightarrow> findUnsentItems ex tbl g 0 lim = rowstore ex tbl)"
proof -
  have char: "findUnsentItems ex tbl g ord lim =
     take lim (filter (\<lambda>t. \<not> (\<exists>e \<in> set (cvr_entry ex).
                  ce_client_group_id e = g \<and> ce_order e \<le> ord \<and> ce_tbl e = TableOrdinal tbl
                  \<and> ce_row_id e = dr_id t \<and> ce_row_version e = dr_rowversion t))
               (rowstore ex tbl))" for ord
    unfolding findUnsentItems_def in_cvr_entry_subquery ..
  have len: "length (findUnsentItems ex tbl g ord lim) \<le> lim"
    by (simp add: findUnsentItems_def)
  have fresh: "findUnsentItems ex tbl g 0 lim = rowstore ex tbl"
    if none: "\<forall>e \<in> set (cvr_entry ex). ce_client_group_id e \<noteq> g"
      and fits: "length (rowstore ex tbl) \<le> lim"
  proof -
    have "filter (\<lambda>t. \<not> (\<exists>e \<in> set (cvr_entry ex).
                  ce_client_group_id e = g \<and> ce_order e \<le> 0 \<and> ce_tbl e = TableOrdinal tbl
                  \<and> ce_row_id e = dr_id t \<and> ce_row_version e = dr_rowversion t))
               (rowstore ex tbl) = rowstore ex tbl"
      using none by (intro filter_True) blast
    with fits show ?thesis by (simp add: char)
  qed
  from char len fresh show ?thesis by blast
qed

theorem findUnsentItems_exact_witness:
  "findUnsentItems example_store Issue ''g3'' 0 2 = rowstore example_store Issue
   \<and> rowstore example_store Issue =
       [\<lparr>dr_id = ''i1'', dr_rowversion = 2, dr_fields = ''first''\<rparr>,
        \<lparr>dr_id = ''i2'', dr_rowversion = 1, dr_fields = ''second''\<rparr>]
   \<and> findUnsentItems example_store Issue ''g1'' 1 2 =
       [\<lparr>dr_id = ''i1'', dr_rowversion = 2, dr_fields = ''first''\<rparr>]
   \<and> length (findUnsentItems example_store Issue ''g3'' 0 2) \<le> 2"
proof -
  have fresh: "\<forall>e \<in> set (cvr_entry example_store). ce_client_group_id e \<noteq> ''g3''"
    by (simp add: example_store_def)
  have fits: "length (rowstore example_store Issue) \<le> 2"
    by (simp add: example_store_def)
  from findUnsentItems_exact [of example_store Issue "''g3''" 0 2] fresh fits
  have whole: "findUnsentItems example_store Issue ''g3'' 0 2 = rowstore example_store Issue"
    and short: "length (findUnsentItems example_store Issue ''g3'' 0 2) \<le> 2"
    by blast+
  have changed: "findUnsentItems example_store Issue ''g1'' 1 2 =
       [\<lparr>dr_id = ''i1'', dr_rowversion = 2, dr_fields = ''first''\<rparr>]"
    by (simp add: findUnsentItems_def cvr_entry_subquery_def example_store_def)
  have rows: "rowstore example_store Issue =
       [\<lparr>dr_id = ''i1'', dr_rowversion = 2, dr_fields = ''first''\<rparr>,
        \<lparr>dr_id = ''i2'', dr_rowversion = 1, dr_fields = ''second''\<rparr>]"
    by (simp add: example_store_def)
  from whole rows changed short show ?thesis
    by (intro conjI)
qed

text \<open>
  C8.  \<^verbatim>\<open>dropCVREntries\<close> leaves no entry and no delete entry of the group
  with an order above the given one; the entries of the group up to that
  order and the entries of every other group stay, in their order; the set of
  entries is the old one without the dropped ones; no other table changes.
\<close>

theorem dropCVREntries_exact:
  "(\<forall>e \<in> set (cvr_entry (dropCVREntries ex g ord)).
       \<not> (ce_client_group_id e = g \<and> ce_order e > ord))
   \<and> (\<forall>d \<in> set (cvr_delete_entry (dropCVREntries ex g ord)).
       \<not> (cd_client_group_id d = g \<and> cd_order d > ord))
   \<and> filter (\<lambda>e. ce_client_group_id e \<noteq> g \<or> ce_order e \<le> ord)
        (cvr_entry (dropCVREntries ex g ord))
      = filter (\<lambda>e. ce_client_group_id e \<noteq> g \<or> ce_order e \<le> ord) (cvr_entry ex)
   \<and> filter (\<lambda>d. cd_client_group_id d \<noteq> g \<or> cd_order d \<le> ord)
        (cvr_delete_entry (dropCVREntries ex g ord))
      = filter (\<lambda>d. cd_client_group_id d \<noteq> g \<or> cd_order d \<le> ord) (cvr_delete_entry ex)
   \<and> set (cvr_entry (dropCVREntries ex g ord))
      = set (cvr_entry ex) - {e. ce_client_group_id e = g \<and> ce_order e > ord}
   \<and> set (cvr_delete_entry (dropCVREntries ex g ord))
      = set (cvr_delete_entry ex) - {d. cd_client_group_id d = g \<and> cd_order d > ord}
   \<and> rowstore (dropCVREntries ex g ord) = rowstore ex
   \<and> client_group (dropCVREntries ex g ord) = client_group ex
   \<and> client (dropCVREntries ex g ord) = client ex"
proof -
  let ?ex' = "dropCVREntries ex g ord"
  have ce: "cvr_entry ?ex' =
      filter (\<lambda>e. \<not> (ce_client_group_id e = g \<and> ce_order e > ord)) (cvr_entry ex)"
    and cd: "cvr_delete_entry ?ex' =
      filter (\<lambda>d. \<not> (cd_client_group_id d = g \<and> cd_order d > ord)) (cvr_delete_entry ex)"
    by (simp_all add: dropCVREntries_def)
  have gone_e: "\<forall>e \<in> set (cvr_entry ?ex'). \<not> (ce_client_group_id e = g \<and> ce_order e > ord)"
    unfolding ce by simp
  have gone_d: "\<forall>d \<in> set (cvr_delete_entry ?ex'). \<not> (cd_client_group_id d = g \<and> cd_order d > ord)"
    unfolding cd by simp
  have keep_e: "filter (\<lambda>e. ce_client_group_id e \<noteq> g \<or> ce_order e \<le> ord) (cvr_entry ?ex')
      = filter (\<lambda>e. ce_client_group_id e \<noteq> g \<or> ce_order e \<le> ord) (cvr_entry ex)"
    unfolding ce filter_filter by (rule filter_cong) auto
  have keep_d: "filter (\<lambda>d. cd_client_group_id d \<noteq> g \<or> cd_order d \<le> ord) (cvr_delete_entry ?ex')
      = filter (\<lambda>d. cd_client_group_id d \<noteq> g \<or> cd_order d \<le> ord) (cvr_delete_entry ex)"
    unfolding cd filter_filter by (rule filter_cong) auto
  have set_e: "set (cvr_entry ?ex')
      = set (cvr_entry ex) - {e. ce_client_group_id e = g \<and> ce_order e > ord}"
    unfolding ce by auto
  have set_d: "set (cvr_delete_entry ?ex')
      = set (cvr_delete_entry ex) - {d. cd_client_group_id d = g \<and> cd_order d > ord}"
    unfolding cd by auto
  have frame: "rowstore ?ex' = rowstore ex" "client_group ?ex' = client_group ex"
      "client ?ex' = client ex"
    by (simp_all add: dropCVREntries_def)
  from gone_e gone_d keep_e keep_d set_e set_d frame show ?thesis
    by blast
qed

theorem dropCVREntries_exact_witness:
  "cvr_entry (dropCVREntries example_store ''g1'' 1) =
     [\<lparr>ce_client_group_id = ''g1'', ce_order = 1, ce_tbl = 1, ce_row_id = ''i1'',
       ce_row_version = 1\<rparr>,
      \<lparr>ce_client_group_id = ''g1'', ce_order = 1, ce_tbl = 1, ce_row_id = ''i2'',
       ce_row_version = 1\<rparr>,
      \<lparr>ce_client_group_id = ''g1'', ce_order = 1, ce_tbl = 1, ce_row_id = ''i3'',
       ce_row_version = 1\<rparr>,
      \<lparr>ce_client_group_id = ''g2'', ce_order = 3, ce_tbl = 1, ce_row_id = ''i1'',
       ce_row_version = 2\<rparr>]
   \<and> cvr_delete_entry (dropCVREntries example_store ''g1'' 1) =
     [\<lparr>cd_client_group_id = ''g2'', cd_order = 3, cd_tbl = 1, cd_row_id = ''i9''\<rparr>]
   \<and> filter (\<lambda>e. ce_client_group_id e \<noteq> ''g1'' \<or> ce_order e \<le> 1)
        (cvr_entry (dropCVREntries example_store ''g1'' 1))
      = filter (\<lambda>e. ce_client_group_id e \<noteq> ''g1'' \<or> ce_order e \<le> 1)
          (cvr_entry example_store)
   \<and> rowstore (dropCVREntries example_store ''g1'' 1) = rowstore example_store"
  using dropCVREntries_exact [of example_store "''g1''" 1]
  by (simp add: example_store_def dropCVREntries_def)

lemma findDeletions_char:
  "findDeletions ex tbl g ord lim =
     take lim (map ce_row_id (filter (\<lambda>e.
         ce_client_group_id e = g \<and> ce_order e \<le> ord \<and> ce_tbl e = TableOrdinal tbl
         \<and> (\<forall>t \<in> set (rowstore ex tbl). dr_id t \<noteq> ce_row_id e)
         \<and> \<not> (\<exists>d \<in> set (cvr_delete_entry ex). cd_client_group_id d = g \<and> cd_order d \<le> ord
                 \<and> cd_tbl d = TableOrdinal tbl \<and> cd_row_id d = ce_row_id e))
       (cvr_entry ex)))"
proof -
  have "filter (\<lambda>e. ce_tbl e = TableOrdinal tbl
                    \<and> \<not> list_ex (\<lambda>t. dr_id t = ce_row_id e) (rowstore ex tbl)
                    \<and> ce_client_group_id e = g
                    \<and> ce_order e \<le> ord
                    \<and> \<not> list_ex (\<lambda>d. cd_tbl d = TableOrdinal tbl
                                    \<and> cd_row_id d = ce_row_id e
                                    \<and> cd_client_group_id d = g
                                    \<and> cd_order d \<le> ord) (cvr_delete_entry ex))
             (cvr_entry ex)
      = filter (\<lambda>e.
         ce_client_group_id e = g \<and> ce_order e \<le> ord \<and> ce_tbl e = TableOrdinal tbl
         \<and> (\<forall>t \<in> set (rowstore ex tbl). dr_id t \<noteq> ce_row_id e)
         \<and> \<not> (\<exists>d \<in> set (cvr_delete_entry ex). cd_client_group_id d = g \<and> cd_order d \<le> ord
                 \<and> cd_tbl d = TableOrdinal tbl \<and> cd_row_id d = ce_row_id e))
       (cvr_entry ex)"
    unfolding list_ex_iff by (rule filter_cong[OF refl]) blast
  then show ?thesis
    unfolding findDeletions_def by (rule arg_cong)
qed

text \<open>
  C7.  \<^verbatim>\<open>findDeletions\<close> returns the row ids of the \<^verbatim>\<open>cvr_entry\<close> rows of the
  table and client group at an order up to the base order whose id is no
  longer in the table and for which \<^verbatim>\<open>cvr_delete_entry\<close> has no row of the
  table and group at an order up to the base order, cut to the first \<open>lim\<close>
  of them.  An id that \<^verbatim>\<open>recordDeletes\<close> recorded at an order up to the base
  order is not returned again.
\<close>

theorem findDeletions_exact:
  "findDeletions ex tbl g ord lim =
     take lim (map ce_row_id (filter (\<lambda>e.
         ce_client_group_id e = g \<and> ce_order e \<le> ord \<and> ce_tbl e = TableOrdinal tbl
         \<and> (\<forall>t \<in> set (rowstore ex tbl). dr_id t \<noteq> ce_row_id e)
         \<and> \<not> (\<exists>d \<in> set (cvr_delete_entry ex). cd_client_group_id d = g \<and> cd_order d \<le> ord
                 \<and> cd_tbl d = TableOrdinal tbl \<and> cd_row_id d = ce_row_id e))
       (cvr_entry ex)))
   \<and> length (findDeletions ex tbl g ord lim) \<le> lim
   \<and> (length (cvr_entry ex) \<le> lim \<longrightarrow>
        set (findDeletions ex tbl g ord lim) =
          {i. (\<exists>e \<in> set (cvr_entry ex). ce_row_id e = i \<and> ce_client_group_id e = g
                 \<and> ce_order e \<le> ord \<and> ce_tbl e = TableOrdinal tbl)
              \<and> (\<forall>t \<in> set (rowstore ex tbl). dr_id t \<noteq> i)
              \<and> \<not> (\<exists>d \<in> set (cvr_delete_entry ex). cd_row_id d = i \<and> cd_client_group_id d = g
                      \<and> cd_order d \<le> ord \<and> cd_tbl d = TableOrdinal tbl)})
   \<and> (\<forall>i \<in> set ids. \<forall>ord'. ord' \<le> ord \<longrightarrow>
        i \<notin> set (findDeletions (recordDeletes ex tbl g ord' ids) tbl g ord lim))"
proof -
  let ?P = "\<lambda>ex e. ce_client_group_id e = g \<and> ce_order e \<le> ord \<and> ce_tbl e = TableOrdinal tbl
         \<and> (\<forall>t \<in> set (rowstore ex tbl). dr_id t \<noteq> ce_row_id e)
         \<and> \<not> (\<exists>d \<in> set (cvr_delete_entry ex). cd_client_group_id d = g \<and> cd_order d \<le> ord
                 \<and> cd_tbl d = TableOrdinal tbl \<and> cd_row_id d = ce_row_id e)"
  have len: "length (findDeletions ex tbl g ord lim) \<le> lim"
    by (simp add: findDeletions_def)
  have full: "set (findDeletions ex tbl g ord lim) =
          {i. (\<exists>e \<in> set (cvr_entry ex). ce_row_id e = i \<and> ce_client_group_id e = g
                 \<and> ce_order e \<le> ord \<and> ce_tbl e = TableOrdinal tbl)
              \<and> (\<forall>t \<in> set (rowstore ex tbl). dr_id t \<noteq> i)
              \<and> \<not> (\<exists>d \<in> set (cvr_delete_entry ex). cd_row_id d = i \<and> cd_client_group_id d = g
                      \<and> cd_order d \<le> ord \<and> cd_tbl d = TableOrdinal tbl)}"
    if fits: "length (cvr_entry ex) \<le> lim"
  proof -
    have "length (filter (?P ex) (cvr_entry ex)) \<le> length (cvr_entry ex)"
      by (rule length_filter_le)
    with fits have "length (map ce_row_id (filter (?P ex) (cvr_entry ex))) \<le> lim"
      unfolding length_map by (rule order_trans[rotated])
    then have "findDeletions ex tbl g ord lim = map ce_row_id (filter (?P ex) (cvr_entry ex))"
      unfolding findDeletions_char by (rule take_all)
    then show ?thesis by auto
  qed
  have recorded: "i \<notin> set (findDeletions (recordDeletes ex tbl g ord' ids) tbl g ord lim)"
    if i: "i \<in> set ids" and le: "ord' \<le> ord" for i ord'
  proof -
    define d0 where "d0 = \<lparr>cd_client_group_id = g, cd_order = ord', cd_tbl = TableOrdinal tbl,
      cd_row_id = i\<rparr>"
    define ex' where "ex' = recordDeletes ex tbl g ord' ids"
    have vals: "d0 \<in> set (recordDeletes_values tbl g ord' ids)"
      unfolding d0_def using i by (induction ids) auto
    from i have "ids \<noteq> []" by auto
    then have d0_in: "d0 \<in> set (cvr_delete_entry ex')"
      using vals by (simp add: recordDeletes_def ex'_def)
    have d0_props: "cd_client_group_id d0 = g" "cd_order d0 \<le> ord"
        "cd_tbl d0 = TableOrdinal tbl" "cd_row_id d0 = i"
      using le by (simp_all add: d0_def)
    define Q :: "cvr_entry_row \<Rightarrow> bool" where "Q = ?P ex'"
    have notQ: "\<not> Q e" if e: "ce_row_id e = i" for e
    proof
      assume "Q e"
      then have "\<not> (\<exists>d \<in> set (cvr_delete_entry ex'). cd_client_group_id d = g \<and> cd_order d \<le> ord
                 \<and> cd_tbl d = TableOrdinal tbl \<and> cd_row_id d = ce_row_id e)"
        unfolding Q_def by (elim conjE)
      moreover have "cd_client_group_id d0 = g \<and> cd_order d0 \<le> ord
                 \<and> cd_tbl d0 = TableOrdinal tbl \<and> cd_row_id d0 = ce_row_id e"
        using d0_props e by simp
      ultimately show False using d0_in by (elim notE) (rule bexI)
    qed
    have "set (findDeletions ex' tbl g ord lim) \<subseteq> set (map ce_row_id (filter Q (cvr_entry ex')))"
      unfolding findDeletions_char Q_def by (rule set_take_subset)
    also have "\<dots> \<subseteq> {j. \<exists>e. ce_row_id e = j \<and> Q e}"
      by auto
    finally show ?thesis
      unfolding ex'_def using notQ by auto
  qed
  show ?thesis
  proof (intro conjI impI ballI allI)
    show "findDeletions ex tbl g ord lim =
     take lim (map ce_row_id (filter (?P ex) (cvr_entry ex)))"
      by (rule findDeletions_char)
  qed (fact len, erule full, erule (1) recorded)
qed

theorem findDeletions_exact_witness:
  "findDeletions example_store Issue ''g1'' 2 5 = [''i3'']
   \<and> length (findDeletions example_store Issue ''g1'' 2 5) \<le> 5
   \<and> ''i3'' \<notin> set (findDeletions (recordDeletes example_store Issue ''g1'' 2 [''i3''])
                      Issue ''g1'' 2 5)"
  using findDeletions_exact [of example_store Issue "''g1''" 2 5 "[''i3'']"]
  by (simp add: example_store_def findDeletions_def)

lemma overwrite_eq:
  "conflict_key e = conflict_key v \<Longrightarrow>
     e\<lparr>ce_row_version := ce_row_version v, ce_order := ce_order v\<rparr> = v"
  by (cases e, cases v) (simp add: conflict_key_def)

lemma insert_on_conflict_keys:
  "map conflict_key (insert_on_conflict es v) =
     (if conflict_key v \<in> set (map conflict_key es) then map conflict_key es
      else map conflict_key es @ [conflict_key v])"
proof -
  have same: "map conflict_key (map (\<lambda>e. if conflict_key e = conflict_key v
                     then e\<lparr>ce_row_version := ce_row_version v, ce_order := ce_order v\<rparr>
                     else e) es) = map conflict_key es"
    by (induction es) (simp_all add: conflict_key_def)
  have ex: "list_ex (\<lambda>e. conflict_key e = conflict_key v) es
      \<longleftrightarrow> conflict_key v \<in> set (map conflict_key es)"
    unfolding list_ex_iff set_map image_iff by metis
  show ?thesis
    unfolding insert_on_conflict_def ex using same by simp
qed

lemma insert_on_conflict_find:
  "find (\<lambda>e. conflict_key e = k) (insert_on_conflict es v) =
     (if k = conflict_key v then Some v else find (\<lambda>e. conflict_key e = k) es)"
proof (cases "list_ex (\<lambda>e. conflict_key e = conflict_key v) es")
  case True
  have "find (\<lambda>e. conflict_key e = k) (map (\<lambda>e. if conflict_key e = conflict_key v
                     then e\<lparr>ce_row_version := ce_row_version v, ce_order := ce_order v\<rparr>
                     else e) xs) =
        (if k = conflict_key v
         then (if list_ex (\<lambda>e. conflict_key e = conflict_key v) xs then Some v else None)
         else find (\<lambda>e. conflict_key e = k) xs)" for xs
    by (induction xs) (auto simp: overwrite_eq)
  with True show ?thesis by (simp add: insert_on_conflict_def)
next
  case False
  then have none: "find (\<lambda>e. conflict_key e = conflict_key v) es = None"
    by (simp add: find_None_iff list_ex_iff)
  have app: "find P (xs @ [y]) = (case find P xs of Some x \<Rightarrow> Some x | None \<Rightarrow> if P y then Some y else None)"
    for P and xs :: "cvr_entry_row list" and y
    by (induction xs) auto
  from False none show ?thesis
    by (auto simp: insert_on_conflict_def app split: option.splits)
qed

lemma foldl_insert_on_conflict_keys_distinct:
  "distinct (map conflict_key es) \<Longrightarrow>
     distinct (map conflict_key (foldl insert_on_conflict es vs))"
proof (induction vs arbitrary: es)
  case Nil
  then show ?case by simp
next
  case (Cons v vs)
  have "distinct (map conflict_key (insert_on_conflict es v))"
    unfolding insert_on_conflict_keys using Cons.prems by simp
  then show ?case by (simp add: Cons.IH)
qed

lemma foldl_insert_on_conflict_keys_set:
  "set (map conflict_key (foldl insert_on_conflict es vs)) =
     set (map conflict_key es) \<union> set (map conflict_key vs)"
proof (induction vs arbitrary: es)
  case Nil
  then show ?case by simp
next
  case (Cons v vs)
  have "set (map conflict_key (insert_on_conflict es v)) =
      insert (conflict_key v) (set (map conflict_key es))"
    unfolding insert_on_conflict_keys by auto
  with Cons.IH[of "insert_on_conflict es v"] show ?case by auto
qed

lemma foldl_insert_on_conflict_length:
  "set (map conflict_key vs) \<subseteq> set (map conflict_key es) \<Longrightarrow>
     length (foldl insert_on_conflict es vs) = length es"
proof (induction vs arbitrary: es)
  case Nil
  then show ?case by simp
next
  case (Cons v vs)
  from Cons.prems have in_es: "conflict_key v \<in> set (map conflict_key es)" by simp
  have keys: "map conflict_key (insert_on_conflict es v) = map conflict_key es"
    unfolding insert_on_conflict_keys using in_es by simp
  then have len: "length (insert_on_conflict es v) = length es"
    by (metis length_map)
  from Cons.prems keys have "set (map conflict_key vs) \<subseteq> set (map conflict_key (insert_on_conflict es v))"
    by simp
  then show ?case using Cons.IH len by simp
qed

lemma foldl_insert_on_conflict_find:
  "distinct (map conflict_key vs) \<Longrightarrow>
   find (\<lambda>e. conflict_key e = k) (foldl insert_on_conflict es vs) =
     (case find (\<lambda>e. conflict_key e = k) vs of
        Some v \<Rightarrow> Some v
      | None \<Rightarrow> find (\<lambda>e. conflict_key e = k) es)"
proof (induction vs arbitrary: es)
  case Nil
  then show ?case by simp
next
  case (Cons v vs)
  from Cons.prems have dist: "distinct (map conflict_key vs)"
    and fresh: "conflict_key v \<notin> set (map conflict_key vs)" by simp_all
  have later: "find (\<lambda>e. conflict_key e = conflict_key v) vs = None"
    using fresh unfolding find_None_iff set_map image_iff by metis
  note step = Cons.IH[OF dist, of "insert_on_conflict es v"]
  show ?case
  proof (cases "k = conflict_key v")
    case True
    with later step show ?thesis
      by (simp add: insert_on_conflict_find split: option.split)
  next
    case False
    then have "conflict_key v \<noteq> k" by metis
    with False step show ?thesis
      by (simp add: insert_on_conflict_find split: option.split)
  qed
qed

lemma find_distinct_filter:
  "distinct (map f xs) \<Longrightarrow> find (\<lambda>x. f x = k) xs = Some v \<Longrightarrow> filter (\<lambda>x. f x = k) xs = [v]"
proof (induction xs)
  case Nil
  then show ?case by simp
next
  case (Cons x xs)
  show ?case
  proof (cases "f x = k")
    case True
    with Cons.prems have "x = v" and "k \<notin> f ` set xs" by auto
    then have "filter (\<lambda>x. f x = k) xs = []"
      by (auto simp: filter_empty_conv)
    with True \<open>x = v\<close> show ?thesis by simp
  next
    case False
    with Cons show ?thesis by simp
  qed
qed

lemma recordUpdates_values_map:
  "recordUpdates_values tbl g ord updates =
     map (\<lambda>u. \<lparr>ce_client_group_id = g, ce_order = ord, ce_tbl = TableOrdinal tbl,
                ce_row_id = dr_id u, ce_row_version = dr_rowversion u\<rparr>) updates"
  by (induction updates) simp_all

lemma recordUpdates_values_keys:
  "map conflict_key (recordUpdates_values tbl g ord updates) =
     map (\<lambda>u. (g, TableOrdinal tbl, dr_id u)) updates"
  by (induction updates) (simp_all add: conflict_key_def)

lemma recordUpdates_values_find:
  "u \<in> set updates \<Longrightarrow> distinct (map dr_id updates) \<Longrightarrow>
     find (\<lambda>e. conflict_key e = (g, TableOrdinal tbl, dr_id u))
       (recordUpdates_values tbl g ord updates)
     = Some \<lparr>ce_client_group_id = g, ce_order = ord, ce_tbl = TableOrdinal tbl,
             ce_row_id = dr_id u, ce_row_version = dr_rowversion u\<rparr>"
proof (induction updates)
  case Nil
  then show ?case by simp
next
  case (Cons a updates)
  show ?case
  proof (cases "dr_id a = dr_id u")
    case True
    with Cons.prems have "a = u" by (auto simp: image_iff)
    then show ?thesis by (simp add: conflict_key_def)
  next
    case False
    with Cons show ?thesis by (auto simp: conflict_key_def)
  qed
qed


lemma filter_by_find:
  "distinct (map f xs) \<Longrightarrow>
     filter (\<lambda>x. f x = k) xs = (case find (\<lambda>x. f x = k) xs of None \<Rightarrow> [] | Some v \<Rightarrow> [v])"
proof (cases "find (\<lambda>x. f x = k) xs")
  case None
  then have "filter (\<lambda>x. f x = k) xs = []"
    unfolding find_None_iff filter_empty_conv by blast
  with None show ?thesis by simp
next
  case (Some v)
  assume "distinct (map f xs)"
  with Some show ?thesis by (simp add: find_distinct_filter)
qed

lemma recordUpdates_returned:
  "updates \<noteq> [] \<Longrightarrow> distinct (map dr_id updates) \<Longrightarrow>
     recordUpdates ex tbl g ord updates =
       (Returned (), ex\<lparr>cvr_entry := foldl insert_on_conflict (cvr_entry ex)
                         (recordUpdates_values tbl g ord updates)\<rparr>)"
proof -
  assume ne: "updates \<noteq> []" and dist: "distinct (map dr_id updates)"
  have "inj (\<lambda>i. (g, TableOrdinal tbl, i :: string))"
    by (rule injI) simp
  then have "distinct (map (\<lambda>i. (g, TableOrdinal tbl, i)) (map dr_id updates))"
    using dist by (simp only: distinct_map) (metis inj_on_subset subset_UNIV)
  then have "distinct (map conflict_key (recordUpdates_values tbl g ord updates))"
    by (simp add: recordUpdates_values_keys comp_def)
  with ne show ?thesis by (simp add: recordUpdates_def)
qed

lemma recordUpdates_refused:
  "\<not> distinct (map dr_id updates) \<Longrightarrow>
     recordUpdates ex tbl g ord updates = (Threw CardinalityViolation, ex)"
proof -
  assume dup: "\<not> distinct (map dr_id updates)"
  then have ne: "updates \<noteq> []" by auto
  have "distinct (map dr_id updates)"
    if "distinct (map (\<lambda>u. (g, TableOrdinal tbl, dr_id u)) updates)"
  proof -
    have "map dr_id updates = map (\<lambda>k. snd (snd k)) (map (\<lambda>u. (g, TableOrdinal tbl, dr_id u)) updates)"
      by simp
    moreover have "inj_on (\<lambda>k. snd (snd k)) (set (map (\<lambda>u. (g, TableOrdinal tbl, dr_id u)) updates))"
      by (rule inj_onI) auto
    ultimately show ?thesis using that by (metis distinct_map)
  qed
  with dup have "\<not> distinct (map conflict_key (recordUpdates_values tbl g ord updates))"
    unfolding recordUpdates_values_keys by blast
  with ne show ?thesis by (simp add: recordUpdates_def)
qed

text \<open>
  C9.  With at most one \<^verbatim>\<open>cvr_entry\<close> row per (client group, table, row id)
  before \<^verbatim>\<open>recordUpdates\<close>, there is at most one per key after it.  When the
  updates have distinct ids the statement is accepted: every update's key
  then has exactly one row, which holds the update's row version and the
  given order; the rows of all other keys are as before; and when every key
  was already present the table has as many rows as before.  Updates that
  repeat an id are refused and change nothing.
\<close>

theorem recordUpdates_unique:
  assumes inv: "distinct (map conflict_key (cvr_entry ex))"
  shows "distinct (map conflict_key (cvr_entry (snd (recordUpdates ex tbl g ord updates))))
    \<and> (distinct (map dr_id updates) \<longrightarrow>
         fst (recordUpdates ex tbl g ord updates) = Returned ()
         \<and> (\<forall>u \<in> set updates.
              filter (\<lambda>e. conflict_key e = (g, TableOrdinal tbl, dr_id u))
                (cvr_entry (snd (recordUpdates ex tbl g ord updates)))
              = [\<lparr>ce_client_group_id = g, ce_order = ord, ce_tbl = TableOrdinal tbl,
                  ce_row_id = dr_id u, ce_row_version = dr_rowversion u\<rparr>])
         \<and> (\<forall>k. k \<notin> (\<lambda>u. (g, TableOrdinal tbl, dr_id u)) ` set updates \<longrightarrow>
              filter (\<lambda>e. conflict_key e = k)
                (cvr_entry (snd (recordUpdates ex tbl g ord updates)))
              = filter (\<lambda>e. conflict_key e = k) (cvr_entry ex))
         \<and> ((\<forall>u \<in> set updates.
                (g, TableOrdinal tbl, dr_id u) \<in> conflict_key ` set (cvr_entry ex)) \<longrightarrow>
              length (cvr_entry (snd (recordUpdates ex tbl g ord updates)))
              = length (cvr_entry ex)))
    \<and> (\<not> distinct (map dr_id updates) \<longrightarrow>
         recordUpdates ex tbl g ord updates = (Threw CardinalityViolation, ex))"
proof -
  let ?vals = "recordUpdates_values tbl g ord updates"
  let ?ex' = "snd (recordUpdates ex tbl g ord updates)"
  have es': "cvr_entry ?ex' = cvr_entry ex \<or> cvr_entry ?ex' = foldl insert_on_conflict (cvr_entry ex) ?vals"
    by (simp add: recordUpdates_def Let_def)
  have keep: "distinct (map conflict_key (cvr_entry ?ex'))"
    using es' inv foldl_insert_on_conflict_keys_distinct[OF inv, of ?vals] by metis
  have ok: "fst (recordUpdates ex tbl g ord updates) = Returned ()"
    and folded: "cvr_entry ?ex' = foldl insert_on_conflict (cvr_entry ex) ?vals"
    and dvals: "distinct (map conflict_key ?vals)"
    if dist: "distinct (map dr_id updates)"
  proof -
    show "fst (recordUpdates ex tbl g ord updates) = Returned ()"
      using recordUpdates_returned[OF _ dist, of ex tbl g ord]
      by (cases "updates = []") (simp_all add: recordUpdates_def)
    show "cvr_entry ?ex' = foldl insert_on_conflict (cvr_entry ex) ?vals"
      using recordUpdates_returned[OF _ dist, of ex tbl g ord]
      by (cases "updates = []") (simp_all add: recordUpdates_def)
    have "inj (\<lambda>i. (g, TableOrdinal tbl, i :: string))"
      by (rule injI) simp
    then have "distinct (map (\<lambda>i. (g, TableOrdinal tbl, i)) (map dr_id updates))"
      using dist by (simp only: distinct_map) (metis inj_on_subset subset_UNIV)
    then show "distinct (map conflict_key ?vals)"
      by (simp add: recordUpdates_values_keys comp_def)
  qed
  have one: "filter (\<lambda>e. conflict_key e = (g, TableOrdinal tbl, dr_id u)) (cvr_entry ?ex')
        = [\<lparr>ce_client_group_id = g, ce_order = ord, ce_tbl = TableOrdinal tbl,
            ce_row_id = dr_id u, ce_row_version = dr_rowversion u\<rparr>]"
    if dist: "distinct (map dr_id updates)" and u: "u \<in> set updates" for u
  proof -
    have "find (\<lambda>e. conflict_key e = (g, TableOrdinal tbl, dr_id u)) (cvr_entry ?ex')
        = Some \<lparr>ce_client_group_id = g, ce_order = ord, ce_tbl = TableOrdinal tbl,
            ce_row_id = dr_id u, ce_row_version = dr_rowversion u\<rparr>"
      unfolding folded[OF dist] foldl_insert_on_conflict_find[OF dvals[OF dist]]
      by (simp add: recordUpdates_values_find[OF u dist])
    with keep show ?thesis by (rule find_distinct_filter)
  qed
  have others: "filter (\<lambda>e. conflict_key e = k) (cvr_entry ?ex')
        = filter (\<lambda>e. conflict_key e = k) (cvr_entry ex)"
    if dist: "distinct (map dr_id updates)"
      and k: "k \<notin> (\<lambda>u. (g, TableOrdinal tbl, dr_id u)) ` set updates" for k
  proof -
    from k have "k \<notin> set (map conflict_key ?vals)"
      by (simp add: recordUpdates_values_keys)
    then have "find (\<lambda>e. conflict_key e = k) ?vals = None"
      unfolding find_None_iff set_map image_iff by metis
    then have "find (\<lambda>e. conflict_key e = k) (cvr_entry ?ex')
        = find (\<lambda>e. conflict_key e = k) (cvr_entry ex)"
      unfolding folded[OF dist] foldl_insert_on_conflict_find[OF dvals[OF dist]] by simp
    then show ?thesis
      unfolding filter_by_find[OF keep] filter_by_find[OF inv] by simp
  qed
  have same_length: "length (cvr_entry ?ex') = length (cvr_entry ex)"
    if dist: "distinct (map dr_id updates)"
      and present: "\<forall>u \<in> set updates.
                (g, TableOrdinal tbl, dr_id u) \<in> conflict_key ` set (cvr_entry ex)"
  proof -
    from present have "set (map conflict_key ?vals) \<subseteq> set (map conflict_key (cvr_entry ex))"
      unfolding recordUpdates_values_keys by auto
    then show ?thesis
      unfolding folded[OF dist] by (rule foldl_insert_on_conflict_length)
  qed
  show ?thesis
  proof (intro conjI impI ballI allI)
    show "distinct (map conflict_key (cvr_entry ?ex'))" by (rule keep)
  qed (erule ok, erule (1) one, erule (1) others, erule (1) same_length,
       erule recordUpdates_refused)
qed

theorem recordUpdates_unique_witness:
  "distinct (map conflict_key (cvr_entry example_store))
   \<and> fst (recordUpdates example_store Issue ''g1'' 2 (rowstore example_store Issue))
       = Returned ()
   \<and> cvr_entry (snd (recordUpdates example_store Issue ''g1'' 2 (rowstore example_store Issue)))
       = [\<lparr>ce_client_group_id = ''g1'', ce_order = 2, ce_tbl = 1, ce_row_id = ''i1'',
           ce_row_version = 2\<rparr>,
          \<lparr>ce_client_group_id = ''g1'', ce_order = 2, ce_tbl = 1, ce_row_id = ''i2'',
           ce_row_version = 1\<rparr>,
          \<lparr>ce_client_group_id = ''g1'', ce_order = 1, ce_tbl = 1, ce_row_id = ''i3'',
           ce_row_version = 1\<rparr>,
          \<lparr>ce_client_group_id = ''g1'', ce_order = 2, ce_tbl = 1, ce_row_id = ''i4'',
           ce_row_version = 1\<rparr>,
          \<lparr>ce_client_group_id = ''g2'', ce_order = 3, ce_tbl = 1, ce_row_id = ''i1'',
           ce_row_version = 2\<rparr>]
   \<and> distinct (map conflict_key
         (cvr_entry (snd (recordUpdates example_store Issue ''g1'' 2
            (rowstore example_store Issue)))))"
proof -
  have inv: "distinct (map conflict_key (cvr_entry example_store))"
    by (simp add: example_store_def conflict_key_def)
  have run: "recordUpdates example_store Issue ''g1'' 2 (rowstore example_store Issue)
      = (Returned (), example_store\<lparr>cvr_entry :=
          [\<lparr>ce_client_group_id = ''g1'', ce_order = 2, ce_tbl = 1, ce_row_id = ''i1'',
           ce_row_version = 2\<rparr>,
          \<lparr>ce_client_group_id = ''g1'', ce_order = 2, ce_tbl = 1, ce_row_id = ''i2'',
           ce_row_version = 1\<rparr>,
          \<lparr>ce_client_group_id = ''g1'', ce_order = 1, ce_tbl = 1, ce_row_id = ''i3'',
           ce_row_version = 1\<rparr>,
          \<lparr>ce_client_group_id = ''g1'', ce_order = 2, ce_tbl = 1, ce_row_id = ''i4'',
           ce_row_version = 1\<rparr>,
          \<lparr>ce_client_group_id = ''g2'', ce_order = 3, ce_tbl = 1, ce_row_id = ''i1'',
           ce_row_version = 2\<rparr>]\<rparr>)"
    by (simp add: example_store_def recordUpdates_def insert_on_conflict_def conflict_key_def)
  from recordUpdates_unique [OF inv, of Issue "''g1''" 2 "rowstore example_store Issue"]
  have "distinct (map conflict_key
         (cvr_entry (snd (recordUpdates example_store Issue ''g1'' 2
            (rowstore example_store Issue)))))"
    by (rule conjunct1)
  with inv run show ?thesis by simp
qed

section \<open>The mutation processor\<close>

text \<open>What one statement and the statements sent late do to a transaction.\<close>

lemma executor_failed:
  "tx_failed tx \<Longrightarrow> snd (executor stmt tx) = tx"
  by (simp add: executor_def)

lemma executor_cases:
  "\<not> tx_failed tx \<Longrightarrow>
     (\<exists>e. stmt (rowstore (tx_db tx)) = Inl e
          \<and> executor stmt tx = (Some e, tx\<lparr>tx_failed := True\<rparr>))
     \<or> (\<exists>rs. stmt (rowstore (tx_db tx)) = Inr rs
          \<and> executor stmt tx = (None, tx\<lparr>tx_db := (tx_db tx)\<lparr>rowstore := rs\<rparr>\<rparr>))"
  by (cases "stmt (rowstore (tx_db tx))") (simp_all add: executor_def)

lemma executor_frame:
  "client (tx_db (snd (executor stmt tx))) = client (tx_db tx)"
  "client_group (tx_db (snd (executor stmt tx))) = client_group (tx_db tx)"
  "cvr_entry (tx_db (snd (executor stmt tx))) = cvr_entry (tx_db tx)"
  "cvr_delete_entry (tx_db (snd (executor stmt tx))) = cvr_delete_entry (tx_db tx)"
  "tx_pending (snd (executor stmt tx)) = tx_pending tx"
  by (simp_all add: executor_def split: sum.split)

lemma executor_raises:
  "executor stmt tx = (Some e, tx1) \<Longrightarrow>
     tx_failed tx1 \<and> tx_pending tx1 = tx_pending tx \<and> tx_db tx1 = tx_db tx"
  by (auto simp: executor_def split: if_splits sum.splits)

lemma executor_returns:
  "executor stmt tx = (None, tx1) \<Longrightarrow>
     \<not> tx_failed tx \<and> \<not> tx_failed tx1 \<and> tx_pending tx1 = tx_pending tx"
  by (auto simp: executor_def split: if_splits sum.splits)

lemma two_statements_raise:
  assumes "(case executor s1 tx of
              (Some e, t1) \<Rightarrow> (Some e, t1)
            | (None, t1) \<Rightarrow> executor s2 t1) = (Some e, t2)"
  shows "tx_failed t2 \<and> tx_pending t2 = tx_pending tx"
proof (cases "executor s1 tx")
  case (Pair r t1)
  show ?thesis
  proof (cases r)
    case None
    with Pair assms have second: "executor s2 t1 = (Some e, t2)" by simp
    from Pair None have "tx_pending t1 = tx_pending tx"
      using executor_returns[of s1 tx t1] by simp
    with executor_raises[OF second] show ?thesis by simp
  next
    case (Some e')
    with Pair assms have "executor s1 tx = (Some e, t2)" by simp
    from executor_raises[OF this] show ?thesis by simp
  qed
qed

lemma two_statements_return:
  assumes "(case executor s1 tx of
              (Some e, t1) \<Rightarrow> (Some e, t1)
            | (None, t1) \<Rightarrow> executor s2 t1) = (None, t2)"
  shows "\<not> tx_failed t2 \<and> tx_pending t2 = tx_pending tx"
proof (cases "executor s1 tx")
  case (Pair r t1)
  show ?thesis
  proof (cases r)
    case None
    with Pair assms have second: "executor s2 t1 = (None, t2)" by simp
    from Pair None have "tx_pending t1 = tx_pending tx"
      using executor_returns[of s1 tx t1] by simp
    with executor_returns[OF second] show ?thesis by simp
  next
    case (Some e')
    with Pair assms show ?thesis by simp
  qed
qed

lemma foldl_executor_frame:
  "client (tx_db (foldl (\<lambda>t stmt. snd (executor stmt t)) tx stmts)) = client (tx_db tx)
   \<and> client_group (tx_db (foldl (\<lambda>t stmt. snd (executor stmt t)) tx stmts))
       = client_group (tx_db tx)
   \<and> cvr_entry (tx_db (foldl (\<lambda>t stmt. snd (executor stmt t)) tx stmts))
       = cvr_entry (tx_db tx)
   \<and> cvr_delete_entry (tx_db (foldl (\<lambda>t stmt. snd (executor stmt t)) tx stmts))
       = cvr_delete_entry (tx_db tx)"
  by (induction stmts arbitrary: tx) (simp_all add: executor_frame)

lemma run_pending_frame:
  "client (tx_db (run_pending tx)) = client (tx_db tx)"
  "client_group (tx_db (run_pending tx)) = client_group (tx_db tx)"
  "cvr_entry (tx_db (run_pending tx)) = cvr_entry (tx_db tx)"
  "cvr_delete_entry (tx_db (run_pending tx)) = cvr_delete_entry (tx_db tx)"
  using foldl_executor_frame[of "tx\<lparr>tx_pending := []\<rparr>" "tx_pending tx"]
  by (simp_all add: run_pending_def)

lemma run_pending_none:
  "tx_pending tx = [] \<Longrightarrow> run_pending tx = tx"
  by (simp add: run_pending_def)

text \<open>What \<^verbatim>\<open>mutate\<close> leaves behind.\<close>

lemma updateIssues_callback_frame:
  "client (tx_db (updateIssues_callback env tx u)) = client (tx_db tx)"
  "client_group (tx_db (updateIssues_callback env tx u)) = client_group (tx_db tx)"
  "cvr_entry (tx_db (updateIssues_callback env tx u)) = cvr_entry (tx_db tx)"
  "cvr_delete_entry (tx_db (updateIssues_callback env tx u)) = cvr_delete_entry (tx_db tx)"
  by (simp_all add: updateIssues_callback_def executor_def split: sum.split option.split)

lemma foldl_updateIssues_callback_frame:
  "client (tx_db (foldl (updateIssues_callback env) tx us)) = client (tx_db tx)
   \<and> client_group (tx_db (foldl (updateIssues_callback env) tx us)) = client_group (tx_db tx)
   \<and> cvr_entry (tx_db (foldl (updateIssues_callback env) tx us)) = cvr_entry (tx_db tx)
   \<and> cvr_delete_entry (tx_db (foldl (updateIssues_callback env) tx us))
       = cvr_delete_entry (tx_db tx)"
  by (induction us arbitrary: tx) (simp_all add: updateIssues_callback_frame)

lemma mutate_frame:
  "client (tx_db (snd (mutate env m tx))) = client (tx_db tx)"
  "client_group (tx_db (snd (mutate env m tx))) = client_group (tx_db tx)"
  "cvr_entry (tx_db (snd (mutate env m tx))) = cvr_entry (tx_db tx)"
  "cvr_delete_entry (tx_db (snd (mutate env m tx))) = cvr_delete_entry (tx_db tx)"
  by (simp_all add: mutate_def executor_def foldl_updateIssues_callback_frame
      split: sum.split prod.split option.split)

lemma mutate_putIssue:
  "m_name m = ''putIssue'' \<Longrightarrow>
     mutate env m tx =
       (case issueWithDescriptionSchema env (m_args m) of
          Inl e \<Rightarrow> (Some e, tx)
        | Inr p \<Rightarrow>
            (case executor (putIssue env (fst p)) tx of
               (Some e, t1) \<Rightarrow> (Some e, t1)
             | (None, t1) \<Rightarrow> executor (putDescription env (snd p)) t1))"
  by (simp add: mutate_def split: sum.split prod.split option.split)

lemma mutate_updateIssues:
  "m_name m = ''updateIssues'' \<Longrightarrow>
     mutate env m tx =
       (case issueUpdateWithIDSchema env (m_args m) of
          Inl e \<Rightarrow> (Some e, tx)
        | Inr updates \<Rightarrow> (None, foldl (updateIssues_callback env) tx updates))"
  by (simp add: mutate_def)

lemma mutate_putIssueComment:
  "m_name m = ''putIssueComment'' \<Longrightarrow>
     mutate env m tx =
       (case commentSchema env (m_args m) of
          Inl e \<Rightarrow> (Some e, tx)
        | Inr c \<Rightarrow> executor (createComment env c) tx)"
  by (simp add: mutate_def)

lemma mutate_deleteIssueComment:
  "m_name m = ''deleteIssueComment'' \<Longrightarrow>
     mutate env m tx =
       (case commentSchema env (m_args m) of
          Inl e \<Rightarrow> (Some e, tx)
        | Inr c \<Rightarrow> executor (deleteComment env (comment_id c)) tx)"
  by (simp add: mutate_def)

lemma mutate_unhandled_name:
  "m_name m \<notin> {''putIssue'', ''updateIssues'', ''putIssueComment'', ''deleteIssueComment''}
     \<Longrightarrow> mutate env m tx = (None, tx)"
  by (simp add: mutate_def)

lemma mutate_raises:
  assumes raised: "mutate env m tx = (Some e, tx1)"
  shows "tx_pending tx1 = tx_pending tx \<and> (tx_failed tx1 \<or> tx1 = tx)"
proof -
  consider (putIssue) "m_name m = ''putIssue''"
    | (updateIssues) "m_name m = ''updateIssues''"
    | (putIssueComment) "m_name m = ''putIssueComment''"
    | (deleteIssueComment) "m_name m = ''deleteIssueComment''"
    | (other) "m_name m \<notin> {''putIssue'', ''updateIssues'', ''putIssueComment'',
        ''deleteIssueComment''}"
    by blast
  then show ?thesis
  proof cases
    case putIssue
    show ?thesis
    proof (cases "issueWithDescriptionSchema env (m_args m)")
      case (Inl e')
      with putIssue raised show ?thesis by (simp add: mutate_putIssue)
    next
      case (Inr p)
      with putIssue raised show ?thesis
        using two_statements_raise[where ?s1.0="putIssue env (fst p)" and tx=tx
            and ?s2.0="putDescription env (snd p)" and e=e and ?t2.0=tx1]
        by (simp add: mutate_putIssue)
    qed
  next
    case updateIssues
    with raised show ?thesis
      by (simp add: mutate_updateIssues split: sum.splits)
  next
    case putIssueComment
    with raised show ?thesis
      by (auto simp: mutate_putIssueComment split: sum.splits dest: executor_raises)
  next
    case deleteIssueComment
    with raised show ?thesis
      by (auto simp: mutate_deleteIssueComment split: sum.splits dest: executor_raises)
  next
    case other
    with raised show ?thesis by (simp add: mutate_unhandled_name)
  qed
qed

lemma mutate_returns_awaited:
  assumes name: "m_name m \<noteq> ''updateIssues''"
    and returned: "mutate env m tx = (None, tx1)"
  shows "tx_pending tx1 = tx_pending tx \<and> (\<not> tx_failed tx1 \<or> tx1 = tx)"
proof -
  consider (putIssue) "m_name m = ''putIssue''"
    | (putIssueComment) "m_name m = ''putIssueComment''"
    | (deleteIssueComment) "m_name m = ''deleteIssueComment''"
    | (other) "m_name m \<notin> {''putIssue'', ''updateIssues'', ''putIssueComment'',
        ''deleteIssueComment''}"
    using name by blast
  then show ?thesis
  proof cases
    case putIssue
    show ?thesis
    proof (cases "issueWithDescriptionSchema env (m_args m)")
      case (Inl e')
      with putIssue returned show ?thesis by (simp add: mutate_putIssue)
    next
      case (Inr p)
      with putIssue returned show ?thesis
        using two_statements_return[where ?s1.0="putIssue env (fst p)" and tx=tx
            and ?s2.0="putDescription env (snd p)" and ?t2.0=tx1]
        by (simp add: mutate_putIssue)
    qed
  next
    case putIssueComment
    with returned show ?thesis
      by (auto simp: mutate_putIssueComment split: sum.splits dest: executor_returns)
  next
    case deleteIssueComment
    with returned show ?thesis
      by (auto simp: mutate_deleteIssueComment split: sum.splits dest: executor_returns)
  next
    case other
    with returned show ?thesis by (simp add: mutate_unhandled_name)
  qed
qed

text \<open>The ways a call of \<^verbatim>\<open>processMutation\<close> can go.\<close>

lemma processMutation_stale:
  "m_id m < cl_lastMutationID (getClientForUpdate ex (m_clientID m)) + 1 \<Longrightarrow>
     processMutation env g m err ex = (Returned None, ex)"
  by (simp add: processMutation_def processMutation_body_def transact_def Let_def
      tx_begin_def run_pending_def)

lemma processMutation_future:
  "m_id m > cl_lastMutationID (getClientForUpdate ex (m_clientID m)) + 1 \<Longrightarrow>
     processMutation env g m err ex = (Threw (FutureMutation (m_id m)), ex)"
  by (simp add: processMutation_def processMutation_body_def transact_def Let_def
      tx_begin_def)

lemma processMutation_version_only:
  "m_id m = cl_lastMutationID (getClientForUpdate ex (m_clientID m)) + 1 \<Longrightarrow>
     processMutation env g m (Some e) ex =
       (Returned None,
        putClient (putClientGroup ex
            \<lparr>cg_id = g, cg_cvrVersion = cg_cvrVersion (getClientGroupForUpdate ex g),
             cg_clientVersion = cg_clientVersion (getClientGroupForUpdate ex g) + 1\<rparr>)
          \<lparr>cl_id = m_clientID m, cl_clientGroupID = g,
           cl_lastMutationID = cl_lastMutationID (getClientForUpdate ex (m_clientID m)) + 1,
           cl_clientVersion = cg_clientVersion (getClientGroupForUpdate ex g) + 1\<rparr>)"
  by (simp add: processMutation_def processMutation_body_def transact_def Let_def
      tx_begin_def run_pending_def)

lemma processMutation_effect_error:
  assumes due: "m_id m = cl_lastMutationID (getClientForUpdate ex (m_clientID m)) + 1"
    and raised: "mutate env m (tx_begin ex) = (Some e, tx)"
  shows "processMutation env g m None ex = (Returned (Some e), ex)"
proof -
  from mutate_raises[OF raised]
  have none: "tx_pending tx = []" and state: "tx_failed tx \<or> tx = tx_begin ex"
    by (simp_all add: tx_begin_def)
  have body: "processMutation_body env g m None (tx_begin ex) = (Returned (Some e), tx)"
    using due raised by (simp add: processMutation_body_def Let_def tx_begin_def)
  from state have "(if tx_failed tx then ex else tx_db tx) = ex"
    by (auto simp: tx_begin_def)
  then show ?thesis
    by (simp add: processMutation_def transact_def body run_pending_none[OF none])
qed

lemma processMutation_effect_returned:
  assumes due: "m_id m = cl_lastMutationID (getClientForUpdate ex (m_clientID m)) + 1"
    and returned: "mutate env m (tx_begin ex) = (None, tx)"
  shows "processMutation env g m None ex =
       (if tx_failed tx then (Threw InFailedSqlTransaction, ex)
        else (Returned None,
              if tx_failed (run_pending tx) then ex
              else putClient (putClientGroup (tx_db (run_pending tx))
                  \<lparr>cg_id = g, cg_cvrVersion = cg_cvrVersion (getClientGroupForUpdate ex g),
                   cg_clientVersion = cg_clientVersion (getClientGroupForUpdate ex g) + 1\<rparr>)
                \<lparr>cl_id = m_clientID m, cl_clientGroupID = g,
                 cl_lastMutationID
                   = cl_lastMutationID (getClientForUpdate ex (m_clientID m)) + 1,
                 cl_clientVersion = cg_clientVersion (getClientGroupForUpdate ex g) + 1\<rparr>))"
proof -
  let ?cg = "\<lparr>cg_id = g, cg_cvrVersion = cg_cvrVersion (getClientGroupForUpdate ex g),
                   cg_clientVersion = cg_clientVersion (getClientGroupForUpdate ex g) + 1\<rparr>"
  let ?cl = "\<lparr>cl_id = m_clientID m, cl_clientGroupID = g,
                 cl_lastMutationID
                   = cl_lastMutationID (getClientForUpdate ex (m_clientID m)) + 1,
                 cl_clientVersion = cg_clientVersion (getClientGroupForUpdate ex g) + 1\<rparr>"
  have body: "processMutation_body env g m None (tx_begin ex) =
      (if tx_failed tx then (Threw InFailedSqlTransaction, tx)
       else (Returned None, tx\<lparr>tx_db := putClient (putClientGroup (tx_db tx) ?cg) ?cl\<rparr>))"
    using due returned by (simp add: processMutation_body_def Let_def tx_begin_def)
  have swap: "foldl (\<lambda>t stmt. snd (executor stmt t))
        (t\<lparr>tx_db := putClient (putClientGroup (tx_db t) cg) cl\<rparr>) stmts
      = (foldl (\<lambda>t stmt. snd (executor stmt t)) t stmts)
          \<lparr>tx_db := putClient (putClientGroup
              (tx_db (foldl (\<lambda>t stmt. snd (executor stmt t)) t stmts)) cg) cl\<rparr>"
    for t :: "'a tx" and cg cl stmts
  proof (induction stmts arbitrary: t)
    case Nil
    then show ?case by simp
  next
    case (Cons s stmts)
    have "snd (executor s (t\<lparr>tx_db := putClient (putClientGroup (tx_db t) cg) cl\<rparr>))
        = (snd (executor s t))
            \<lparr>tx_db := putClient (putClientGroup (tx_db (snd (executor s t))) cg) cl\<rparr>"
      by (simp add: executor_def putClient_def putClientGroup_def split: sum.split)
    then show ?case by (simp add: Cons.IH)
  qed
  have "run_pending (tx\<lparr>tx_db := putClient (putClientGroup (tx_db tx) ?cg) ?cl\<rparr>)
      = foldl (\<lambda>t stmt. snd (executor stmt t))
          ((tx\<lparr>tx_pending := []\<rparr>)
             \<lparr>tx_db := putClient (putClientGroup (tx_db (tx\<lparr>tx_pending := []\<rparr>)) ?cg) ?cl\<rparr>)
          (tx_pending tx)"
    by (cases tx) (simp add: run_pending_def)
  also have "\<dots> = (foldl (\<lambda>t stmt. snd (executor stmt t)) (tx\<lparr>tx_pending := []\<rparr>) (tx_pending tx))
          \<lparr>tx_db := putClient (putClientGroup
              (tx_db (foldl (\<lambda>t stmt. snd (executor stmt t)) (tx\<lparr>tx_pending := []\<rparr>)
                 (tx_pending tx))) ?cg) ?cl\<rparr>"
    by (rule swap)
  finally have late:
    "run_pending (tx\<lparr>tx_db := putClient (putClientGroup (tx_db tx) ?cg) ?cl\<rparr>)
      = (run_pending tx)\<lparr>tx_db := putClient (putClientGroup (tx_db (run_pending tx)) ?cg) ?cl\<rparr>"
    by (simp only: run_pending_def)
  show ?thesis
    by (simp add: processMutation_def transact_def body late Let_def)
qed

lemma processMutation_effect_ok:
  assumes due: "m_id m = cl_lastMutationID (getClientForUpdate ex (m_clientID m)) + 1"
    and name: "m_name m \<noteq> ''updateIssues''"
    and returned: "mutate env m (tx_begin ex) = (None, tx)"
  shows "processMutation env g m None ex =
       (Returned None,
        putClient (putClientGroup (tx_db tx)
            \<lparr>cg_id = g, cg_cvrVersion = cg_cvrVersion (getClientGroupForUpdate ex g),
             cg_clientVersion = cg_clientVersion (getClientGroupForUpdate ex g) + 1\<rparr>)
          \<lparr>cl_id = m_clientID m, cl_clientGroupID = g,
           cl_lastMutationID = cl_lastMutationID (getClientForUpdate ex (m_clientID m)) + 1,
           cl_clientVersion = cg_clientVersion (getClientGroupForUpdate ex g) + 1\<rparr>)"
proof -
  from mutate_returns_awaited[OF name returned]
  have none: "tx_pending tx = []" and ok: "\<not> tx_failed tx"
    by (auto simp: tx_begin_def)
  show ?thesis
    unfolding processMutation_effect_returned[OF due returned]
    by (simp add: run_pending_none[OF none] ok)
qed

lemma getClientForUpdate_put:
  "getClientForUpdate (putClient (putClientGroup ex cg) c) (cl_id c) = c"
  by (simp add: getClientForUpdate_def putClient_def putClientGroup_def)

lemma getClientGroupForUpdate_put:
  "getClientGroupForUpdate (putClient (putClientGroup ex cg) c) (cg_id cg) = cg"
  by (simp add: getClientGroupForUpdate_def putClient_def putClientGroup_def)

lemma put_frame:
  "rowstore (putClient (putClientGroup ex cg) c) = rowstore ex"
  "cvr_entry (putClient (putClientGroup ex cg) c) = cvr_entry ex"
  "cvr_delete_entry (putClient (putClientGroup ex cg) c) = cvr_delete_entry ex"
  "client (putClient (putClientGroup ex cg) c) = (client ex)(cl_id c \<mapsto> c)"
  "client_group (putClient (putClientGroup ex cg) c) = (client_group ex)(cg_id cg \<mapsto> cg)"
  by (simp_all add: putClient_def putClientGroup_def)

text \<open>
  Whatever a call does, it either leaves the database as it was or returns
  \<^verbatim>\<open>null\<close> with the client's \<^verbatim>\<open>lastMutationID\<close> at the mutation's id.
\<close>

lemma processMutation_all_or_nothing:
  "snd (processMutation env g m err ex) = ex
   \<or> (fst (processMutation env g m err ex) = Returned None
      \<and> m_id m = cl_lastMutationID (getClientForUpdate ex (m_clientID m)) + 1
      \<and> getClientForUpdate (snd (processMutation env g m err ex)) (m_clientID m)
          = \<lparr>cl_id = m_clientID m, cl_clientGroupID = g, cl_lastMutationID = m_id m,
             cl_clientVersion = cg_clientVersion (getClientGroupForUpdate ex g) + 1\<rparr>
      \<and> getClientGroupForUpdate (snd (processMutation env g m err ex)) g
          = \<lparr>cg_id = g, cg_cvrVersion = cg_cvrVersion (getClientGroupForUpdate ex g),
             cg_clientVersion = cg_clientVersion (getClientGroupForUpdate ex g) + 1\<rparr>)"
proof -
  let ?next = "cl_lastMutationID (getClientForUpdate ex (m_clientID m)) + 1"
  consider (stale) "m_id m < ?next" | (future) "m_id m > ?next" | (due) "m_id m = ?next"
    by linarith
  then show ?thesis
  proof cases
    case stale
    then show ?thesis by (simp add: processMutation_stale)
  next
    case future
    then show ?thesis by (simp add: processMutation_future)
  next
    case due
    show ?thesis
    proof (cases err)
      case (Some e)
      with due show ?thesis
        by (simp add: processMutation_version_only getClientForUpdate_def
            getClientGroupForUpdate_def putClient_def putClientGroup_def)
    next
      case None
      obtain r tx where mut: "mutate env m (tx_begin ex) = (r, tx)"
        by (cases "mutate env m (tx_begin ex)")
      show ?thesis
      proof (cases r)
        case (Some e)
        with due mut None show ?thesis by (simp add: processMutation_effect_error)
      next
        case no_error: None
        with mut have returned: "mutate env m (tx_begin ex) = (None, tx)" by simp
        note run = processMutation_effect_returned[OF due returned, of g]
        show ?thesis
          unfolding None run using due
          by (simp add: getClientForUpdate_def getClientGroupForUpdate_def
              putClient_def putClientGroup_def)
      qed
    qed
  qed
qed


lemma push_loop_append:
  "push_loop env g (xs @ ys) ex =
     (case push_loop env g xs ex of
        (Threw e, ex1) \<Rightarrow> (Threw e, ex1)
      | (Returned r, ex1) \<Rightarrow> push_loop env g ys ex1)"
proof (induction xs arbitrary: ex)
  case Nil
  then show ?case by simp
next
  case (Cons x xs)
  show ?case
    by (simp add: Cons.IH split: prod.split outcome.split option.split)
qed

text \<open>Runs on the example store.\<close>

lemma example_next:
  "cl_lastMutationID (getClientForUpdate example_store ''c1'') = 0"
  "cg_clientVersion (getClientGroupForUpdate example_store g) = 0"
  "cg_cvrVersion (getClientGroupForUpdate example_store g) = 0"
  by (simp_all add: getClientForUpdate_def getClientGroupForUpdate_def example_store_def)

lemma example_push_comment:
  "push_loop example_env ''g1'' [example_mutation 1 ''putIssueComment'' ''k1''] example_store
     = (Returned (), example_store_pushed)"
  by (simp add: processMutation_def processMutation_body_def transact_def mutate_def
      executor_def tx_begin_def run_pending_def
      getClientForUpdate_def getClientGroupForUpdate_def putClient_def putClientGroup_def
      example_env_def example_mutation_def example_store_def example_store_pushed_def)

lemma example_pushed_next:
  "cl_lastMutationID (getClientForUpdate example_store_pushed ''c1'') = 1"
  "cg_clientVersion (getClientGroupForUpdate example_store_pushed ''g1'') = 1"
  by (simp_all add: getClientForUpdate_def getClientGroupForUpdate_def
      example_store_pushed_def)

text \<open>
  An \<open>updateIssues\<close> whose description change is refused: the call returns
  \<^verbatim>\<open>null\<close>, nothing is stored and the id is still due, so that the comment
  submitted next under the same id is processed.
\<close>

lemma example_push_refused_update:
  "push_loop example_env ''g1'' [example_mutation 1 ''updateIssues'' ''i1xyz''] example_store
     = (Returned (), example_store)"
  "push_loop example_env ''g1'' [example_mutation 1 ''putIssueComment'' ''k1'']
     (snd (push_loop example_env ''g1'' [example_mutation 1 ''updateIssues'' ''i1xyz'']
        example_store))
     = (Returned (), example_store_pushed)"
proof -
  let ?m = "example_mutation 1 ''updateIssues'' ''i1xyz''"
  have due: "m_id ?m = cl_lastMutationID (getClientForUpdate example_store (m_clientID ?m)) + 1"
    by (simp add: example_mutation_def example_next)
  have "fst (mutate example_env ?m (tx_begin example_store)) = None"
    by (simp add: mutate_def updateIssues_callback_def executor_def tx_begin_def
        example_env_def example_mutation_def)
  then have returned: "mutate example_env ?m (tx_begin example_store)
      = (None, snd (mutate example_env ?m (tx_begin example_store)))"
    by (simp add: prod_eq_iff)
  have sent: "\<not> tx_failed (snd (mutate example_env ?m (tx_begin example_store)))"
    by (simp add: mutate_def updateIssues_callback_def executor_def tx_begin_def
        example_env_def example_mutation_def)
  have failed: "tx_failed (run_pending (snd (mutate example_env ?m (tx_begin example_store))))"
    by (simp add: mutate_def updateIssues_callback_def executor_def tx_begin_def
        run_pending_def example_env_def example_mutation_def)
  have "processMutation example_env ''g1'' ?m None example_store = (Returned None, example_store)"
    unfolding processMutation_effect_returned[OF due returned]
    by (simp add: sent failed)
  then show first: "push_loop example_env ''g1'' [?m] example_store
      = (Returned (), example_store)"
    by simp
  show "push_loop example_env ''g1'' [example_mutation 1 ''putIssueComment'' ''k1'']
     (snd (push_loop example_env ''g1'' [?m] example_store))
     = (Returned (), example_store_pushed)"
    unfolding first snd_conv by (rule example_push_comment)
qed






text \<open>
  C4.  When the mutations before \<open>m\<close> have been processed and the id of \<open>m\<close>
  is above the next id of its client, the batch ends with the error of a
  mutation from the future; the database is the one the earlier mutations
  left, whatever mutations follow \<open>m\<close>.
\<close>

theorem push_future_aborts:
  assumes pre: "push_loop env g pre ex = (Returned (), ex1)"
    and future: "m_id m > cl_lastMutationID (getClientForUpdate ex1 (m_clientID m)) + 1"
  shows "push_loop env g (pre @ m # post) ex = (Threw (FutureMutation (m_id m)), ex1)
    \<and> (list_all (\<lambda>x. m_name x \<in> set (mutationNames env)) (pre @ m # post) \<longrightarrow>
          push env \<lparr>clientGroupID = g, mutations = pre @ m # post\<rparr> ex
            = (Threw (FutureMutation (m_id m)), ex1)
          \<and> push env \<lparr>clientGroupID = g, mutations = pre\<rparr> ex = (Returned (), ex1))"
proof -
  have "processMutation env g m None ex1 = (Threw (FutureMutation (m_id m)), ex1)"
    using future by (rule processMutation_future)
  then have "push_loop env g (m # post) ex1 = (Threw (FutureMutation (m_id m)), ex1)"
    by simp
  with pre have loop: "push_loop env g (pre @ m # post) ex
      = (Threw (FutureMutation (m_id m)), ex1)"
    by (simp add: push_loop_append)
  have "push env \<lparr>clientGroupID = g, mutations = pre @ m # post\<rparr> ex
            = (Threw (FutureMutation (m_id m)), ex1)
      \<and> push env \<lparr>clientGroupID = g, mutations = pre\<rparr> ex = (Returned (), ex1)"
    if "list_all (\<lambda>x. m_name x \<in> set (mutationNames env)) (pre @ m # post)"
    using that loop pre by (simp add: push_def pushRequestSchema_def)
  with loop show ?thesis by blast
qed

theorem push_future_aborts_witness:
  "push example_env
     \<lparr>clientGroupID = ''g1'',
      mutations = [example_mutation 1 ''putIssueComment'' ''k1'']
        @ example_mutation 5 ''putIssue'' ''i8''
        # [example_mutation 2 ''putIssue'' ''i7'']\<rparr> example_store
     = (Threw (FutureMutation 5), example_store_pushed)
   \<and> push example_env
     \<lparr>clientGroupID = ''g1'', mutations = [example_mutation 1 ''putIssueComment'' ''k1'']\<rparr>
       example_store
     = (Returned (), example_store_pushed)"
proof -
  have future: "m_id (example_mutation 5 ''putIssue'' ''i8'')
      > cl_lastMutationID (getClientForUpdate example_store_pushed
          (m_clientID (example_mutation 5 ''putIssue'' ''i8''))) + 1"
    by (simp add: example_mutation_def example_pushed_next)
  have names: "list_all (\<lambda>x. m_name x \<in> set (mutationNames example_env))
      ([example_mutation 1 ''putIssueComment'' ''k1'']
        @ example_mutation 5 ''putIssue'' ''i8'' # [example_mutation 2 ''putIssue'' ''i7''])"
    by (simp add: example_mutation_def example_env_def)
  have id5: "m_id (example_mutation 5 ''putIssue'' ''i8'') = 5"
    by (simp add: example_mutation_def)
  from push_future_aborts [OF example_push_comment future,
      of "[example_mutation 2 ''putIssue'' ''i7'']"] names
  show ?thesis unfolding id5 by blast
qed

text \<open>
  C3.  When a mutation is due and its effect raises, the first call returns
  the error, the second call returns \<^verbatim>\<open>null\<close>, and after it the client's
  \<^verbatim>\<open>lastMutationID\<close> and the client group's \<^verbatim>\<open>clientVersion\<close> are each one
  more than before; the loop then goes on with the rest of the batch from
  that database.
\<close>

theorem push_domain_error_progress:
  assumes due: "m_id m = cl_lastMutationID (getClientForUpdate ex (m_clientID m)) + 1"
    and raised: "mutate env m (tx_begin ex) = (Some e, tx)"
  shows "fst (processMutation env g m None ex) = Returned (Some e)
    \<and> fst (processMutation env g m (Some e) (snd (processMutation env g m None ex)))
        = Returned None
    \<and> cl_lastMutationID (getClientForUpdate
          (snd (processMutation env g m (Some e) (snd (processMutation env g m None ex))))
          (m_clientID m))
        = cl_lastMutationID (getClientForUpdate ex (m_clientID m)) + 1
    \<and> cg_clientVersion (getClientGroupForUpdate
          (snd (processMutation env g m (Some e) (snd (processMutation env g m None ex)))) g)
        = cg_clientVersion (getClientGroupForUpdate ex g) + 1
    \<and> push_loop env g (m # rest) ex
        = push_loop env g rest
            (snd (processMutation env g m (Some e) (snd (processMutation env g m None ex))))"
proof -
  have first: "processMutation env g m None ex = (Returned (Some e), ex)"
    using due raised by (rule processMutation_effect_error)
  note second = processMutation_version_only[OF due, of env g e]
  show ?thesis
    unfolding first snd_conv fst_conv
    by (simp add: first second getClientForUpdate_def getClientGroupForUpdate_def
        putClient_def putClientGroup_def)
qed

theorem push_domain_error_progress_witness:
  "push_loop example_env ''g1''
     [example_mutation 1 ''putIssue'' [], example_mutation 2 ''putIssueComment'' ''k1'']
     example_store
     = (Returned (),
        example_store
          \<lparr>rowstore := (rowstore example_store)
             (Comment := [\<lparr>dr_id = ''k1'', dr_rowversion = 1, dr_fields = ''k1''\<rparr>]),
           client_group :=
             [''g1'' \<mapsto> \<lparr>cg_id = ''g1'', cg_cvrVersion = 0, cg_clientVersion = 2\<rparr>],
           client :=
             [''c1'' \<mapsto> \<lparr>cl_id = ''c1'', cl_clientGroupID = ''g1'', cl_lastMutationID = 2,
                         cl_clientVersion = 2\<rparr>]\<rparr>)
   \<and> fst (processMutation example_env ''g1'' (example_mutation 1 ''putIssue'' []) None
        example_store) = Returned (Some ''invalid arguments'')
   \<and> cl_lastMutationID (getClientForUpdate
          (snd (processMutation example_env ''g1'' (example_mutation 1 ''putIssue'' [])
             (Some ''invalid arguments'')
             (snd (processMutation example_env ''g1'' (example_mutation 1 ''putIssue'' [])
                None example_store))))
          ''c1'') = 1"
proof -
  have due: "m_id (example_mutation 1 ''putIssue'' [])
      = cl_lastMutationID (getClientForUpdate example_store
          (m_clientID (example_mutation 1 ''putIssue'' []))) + 1"
    by (simp add: example_mutation_def example_next)
  have raised: "mutate example_env (example_mutation 1 ''putIssue'' [])
        (tx_begin example_store)
      = (Some ''invalid arguments'', tx_begin example_store)"
    by (simp add: mutate_def example_env_def example_mutation_def)
  note progress = push_domain_error_progress [OF due raised, of "''g1''"
      "[example_mutation 2 ''putIssueComment'' ''k1'']"]
  have c1: "m_clientID (example_mutation 1 ''putIssue'' []) = ''c1''"
    by (simp add: example_mutation_def)
  have old: "cl_lastMutationID (getClientForUpdate example_store ''c1'') = 0"
    by (rule example_next)
  have run: "push_loop example_env ''g1''
     [example_mutation 1 ''putIssue'' [], example_mutation 2 ''putIssueComment'' ''k1'']
     example_store
     = (Returned (),
        example_store
          \<lparr>rowstore := (rowstore example_store)
             (Comment := [\<lparr>dr_id = ''k1'', dr_rowversion = 1, dr_fields = ''k1''\<rparr>]),
           client_group :=
             [''g1'' \<mapsto> \<lparr>cg_id = ''g1'', cg_cvrVersion = 0, cg_clientVersion = 2\<rparr>],
           client :=
             [''c1'' \<mapsto> \<lparr>cl_id = ''c1'', cl_clientGroupID = ''g1'', cl_lastMutationID = 2,
                         cl_clientVersion = 2\<rparr>]\<rparr>)"
    by (simp add: processMutation_def processMutation_body_def transact_def mutate_def
        executor_def tx_begin_def run_pending_def
        getClientForUpdate_def getClientGroupForUpdate_def putClient_def putClientGroup_def
        example_env_def example_mutation_def example_store_def)
  from progress run show ?thesis
    unfolding c1 old by simp
qed

lemma mutate_validation_error:
  "(m_name m = ''putIssue'' \<and> issueWithDescriptionSchema env (m_args m) = Inl e)
   \<or> (m_name m = ''updateIssues'' \<and> issueUpdateWithIDSchema env (m_args m) = Inl e)
   \<or> ((m_name m = ''putIssueComment'' \<or> m_name m = ''deleteIssueComment'')
        \<and> commentSchema env (m_args m) = Inl e)
     \<Longrightarrow> mutate env m tx = (Some e, tx)"
  by (auto simp: mutate_def)

lemma pushRequestSchema_iff:
  "pushRequestSchema env req =
     (if \<forall>x \<in> set (mutations req). m_name x \<in> set (mutationNames env)
      then Inr req else Inl ZodError)"
  by (simp add: pushRequestSchema_def list_all_iff)

text \<open>
  C2, as the code has it.  \<^verbatim>\<open>pushRequestSchema\<close> accepts a request only when
  every mutation name is one of \<^verbatim>\<open>mutationNames\<close>: a request with any other
  name is rejected with a \<^verbatim>\<open>ZodError\<close> before any mutation is processed, and
  the database stays as it was.  A name that the schema accepts and for which
  the \<^verbatim>\<open>switch\<close> of \<^verbatim>\<open>mutate\<close> has no case is a no-op: a due mutation with
  such a name returns \<^verbatim>\<open>null\<close>, leaves the Row Store as it was, advances
  \<^verbatim>\<open>lastMutationID\<close> to its id and \<^verbatim>\<open>clientVersion\<close> by one, and the loop
  goes on with the rest of the batch.
\<close>

theorem push_unknown_name:
  "((\<exists>x \<in> set (mutations req). m_name x \<notin> set (mutationNames env)) \<longrightarrow>
      push env req ex = (Threw ZodError, ex))
   \<and> ((\<forall>x \<in> set (mutations req). m_name x \<in> set (mutationNames env)) \<longrightarrow>
      push env req ex = push_loop env (clientGroupID req) (mutations req) ex)
   \<and> (m_name m \<notin> {''putIssue'', ''updateIssues'', ''putIssueComment'', ''deleteIssueComment''}
        \<and> m_id m = cl_lastMutationID (getClientForUpdate ex (m_clientID m)) + 1 \<longrightarrow>
      fst (processMutation env g m None ex) = Returned None
      \<and> rowstore (snd (processMutation env g m None ex)) = rowstore ex
      \<and> cl_lastMutationID
           (getClientForUpdate (snd (processMutation env g m None ex)) (m_clientID m))
         = m_id m
      \<and> cg_clientVersion (getClientGroupForUpdate (snd (processMutation env g m None ex)) g)
         = cg_clientVersion (getClientGroupForUpdate ex g) + 1
      \<and> push_loop env g (m # rest) ex
         = push_loop env g rest (snd (processMutation env g m None ex)))"
proof -
  have rejected: "push env req ex = (Threw ZodError, ex)"
    if "\<exists>x \<in> set (mutations req). m_name x \<notin> set (mutationNames env)"
  proof -
    from that have "\<not> (\<forall>x \<in> set (mutations req). m_name x \<in> set (mutationNames env))"
      by blast
    then have "pushRequestSchema env req = Inl ZodError"
      unfolding pushRequestSchema_iff by (rule if_not_P)
    then show ?thesis by (simp add: push_def)
  qed
  have accepted: "push env req ex = push_loop env (clientGroupID req) (mutations req) ex"
    if "\<forall>x \<in> set (mutations req). m_name x \<in> set (mutationNames env)"
    using that by (simp add: push_def pushRequestSchema_iff)
  have noop: "fst (processMutation env g m None ex) = Returned None
      \<and> rowstore (snd (processMutation env g m None ex)) = rowstore ex
      \<and> cl_lastMutationID
           (getClientForUpdate (snd (processMutation env g m None ex)) (m_clientID m))
         = m_id m
      \<and> cg_clientVersion (getClientGroupForUpdate (snd (processMutation env g m None ex)) g)
         = cg_clientVersion (getClientGroupForUpdate ex g) + 1
      \<and> push_loop env g (m # rest) ex
         = push_loop env g rest (snd (processMutation env g m None ex))"
    if name: "m_name m \<notin> {''putIssue'', ''updateIssues'', ''putIssueComment'',
        ''deleteIssueComment''}"
      and due: "m_id m = cl_lastMutationID (getClientForUpdate ex (m_clientID m)) + 1"
  proof -
    have mut: "mutate env m (tx_begin ex) = (None, tx_begin ex)"
      using name by (rule mutate_unhandled_name)
    from name have awaited: "m_name m \<noteq> ''updateIssues''"
      by simp
    note run = processMutation_effect_ok[OF due awaited mut, of g]
    show ?thesis
      unfolding run snd_conv fst_conv
      using due
      by (simp add: run tx_begin_def put_frame getClientForUpdate_def
          getClientGroupForUpdate_def putClient_def putClientGroup_def)
  qed
  from rejected accepted noop show ?thesis by blast
qed

theorem push_unknown_name_witness:
  "push example_env
     \<lparr>clientGroupID = ''g1'',
      mutations = [example_mutation 1 ''putIssueComment'' ''k1'',
                   example_mutation 2 ''frobnicate'' ''x'']\<rparr> example_store
     = (Threw ZodError, example_store)
   \<and> fst (processMutation example_env ''g1'' (example_mutation 2 ''deleteIssues'' ''i1'') None
        example_store_pushed) = Returned None
   \<and> rowstore (snd (processMutation example_env ''g1''
        (example_mutation 2 ''deleteIssues'' ''i1'') None example_store_pushed))
     = rowstore example_store_pushed
   \<and> cl_lastMutationID (getClientForUpdate (snd (processMutation example_env ''g1''
        (example_mutation 2 ''deleteIssues'' ''i1'') None example_store_pushed)) ''c1'') = 2
   \<and> cg_clientVersion (getClientGroupForUpdate (snd (processMutation example_env ''g1''
        (example_mutation 2 ''deleteIssues'' ''i1'') None example_store_pushed)) ''g1'') = 2"
proof -
  have bad: "\<exists>x \<in> set (mutations
      \<lparr>clientGroupID = ''g1'',
       mutations = [example_mutation 1 ''putIssueComment'' ''k1'',
                    example_mutation 2 ''frobnicate'' ''x'']\<rparr>).
      m_name x \<notin> set (mutationNames example_env)"
    by (simp add: example_mutation_def example_env_def)
  have name: "m_name (example_mutation 2 ''deleteIssues'' ''i1'')
      \<notin> {''putIssue'', ''updateIssues'', ''putIssueComment'', ''deleteIssueComment''}"
    by (simp add: example_mutation_def)
  have due: "m_id (example_mutation 2 ''deleteIssues'' ''i1'')
      = cl_lastMutationID (getClientForUpdate example_store_pushed
          (m_clientID (example_mutation 2 ''deleteIssues'' ''i1''))) + 1"
    by (simp add: example_mutation_def example_pushed_next)
  have c1: "m_clientID (example_mutation 2 ''deleteIssues'' ''i1'') = ''c1''"
    "m_id (example_mutation 2 ''deleteIssues'' ''i1'') = 2"
    by (simp_all add: example_mutation_def)
  from push_unknown_name [where env=example_env and ex=example_store
      and req="\<lparr>clientGroupID = ''g1'',
       mutations = [example_mutation 1 ''putIssueComment'' ''k1'',
                    example_mutation 2 ''frobnicate'' ''x'']\<rparr>"] bad
  have rejected: "push example_env
     \<lparr>clientGroupID = ''g1'',
      mutations = [example_mutation 1 ''putIssueComment'' ''k1'',
                   example_mutation 2 ''frobnicate'' ''x'']\<rparr> example_store
     = (Threw ZodError, example_store)"
    by blast
  from push_unknown_name [where env=example_env and ex=example_store_pushed
      and m="example_mutation 2 ''deleteIssues'' ''i1''" and g="''g1''"] name due
  have "fst (processMutation example_env ''g1'' (example_mutation 2 ''deleteIssues'' ''i1'') None
        example_store_pushed) = Returned None
   \<and> rowstore (snd (processMutation example_env ''g1''
        (example_mutation 2 ''deleteIssues'' ''i1'') None example_store_pushed))
     = rowstore example_store_pushed
   \<and> cl_lastMutationID (getClientForUpdate (snd (processMutation example_env ''g1''
        (example_mutation 2 ''deleteIssues'' ''i1'') None example_store_pushed))
        (m_clientID (example_mutation 2 ''deleteIssues'' ''i1'')))
      = m_id (example_mutation 2 ''deleteIssues'' ''i1'')
   \<and> cg_clientVersion (getClientGroupForUpdate (snd (processMutation example_env ''g1''
        (example_mutation 2 ''deleteIssues'' ''i1'') None example_store_pushed)) ''g1'')
      = cg_clientVersion (getClientGroupForUpdate example_store_pushed ''g1'') + 1"
    by blast
  with rejected show ?thesis
    unfolding c1 example_pushed_next by simp
qed

text \<open>
  The claim C2 as the spec states it fails: with the name \<open>frobnicate\<close>, which
  is not in the vocabulary, the whole request throws, and the comment of the
  mutation before it is not stored either.
\<close>

theorem push_unknown_name_counterexample:
  "''frobnicate'' \<notin> set (mutationNames example_env)
   \<and> push example_env
       \<lparr>clientGroupID = ''g1'',
        mutations = [example_mutation 1 ''putIssueComment'' ''k1'',
                     example_mutation 2 ''frobnicate'' ''x'']\<rparr> example_store
     = (Threw ZodError, example_store)
   \<and> push example_env
       \<lparr>clientGroupID = ''g1'',
        mutations = [example_mutation 1 ''putIssueComment'' ''k1'']\<rparr> example_store
     = (Returned (), example_store_pushed)
   \<and> rowstore example_store Comment = []"
proof -
  have unknown: "''frobnicate'' \<notin> set (mutationNames example_env)"
    by (simp add: example_env_def)
  have refused: "pushRequestSchema example_env
       \<lparr>clientGroupID = ''g1'',
        mutations = [example_mutation 1 ''putIssueComment'' ''k1'',
                     example_mutation 2 ''frobnicate'' ''x'']\<rparr> = Inl ZodError"
    by (simp add: pushRequestSchema_def example_env_def example_mutation_def)
  have passed: "pushRequestSchema example_env
       \<lparr>clientGroupID = ''g1'',
        mutations = [example_mutation 1 ''putIssueComment'' ''k1'']\<rparr>
      = Inr \<lparr>clientGroupID = ''g1'',
        mutations = [example_mutation 1 ''putIssueComment'' ''k1'']\<rparr>"
    by (simp add: pushRequestSchema_def example_env_def example_mutation_def)
  have empty: "rowstore example_store Comment = []"
    by (simp add: example_store_def)
  have thrown: "push example_env
       \<lparr>clientGroupID = ''g1'',
        mutations = [example_mutation 1 ''putIssueComment'' ''k1'',
                     example_mutation 2 ''frobnicate'' ''x'']\<rparr> example_store
     = (Threw ZodError, example_store)"
    by (simp add: push_def refused)
  have alone: "push example_env
       \<lparr>clientGroupID = ''g1'',
        mutations = [example_mutation 1 ''putIssueComment'' ''k1'']\<rparr> example_store
     = (Returned (), example_store_pushed)"
    by (simp add: push_def passed example_push_comment del: push_loop.simps)
  from unknown thrown alone empty show ?thesis
    by (intro conjI)
qed

text \<open>
  C1.  Each call of \<^verbatim>\<open>processMutation\<close> is one transaction.  When the effect
  of a due mutation raises, the call returns the error and stores nothing: in
  particular when \<^verbatim>\<open>putIssue\<close> has succeeded and \<^verbatim>\<open>putDescription\<close> is refused,
  the issue is not stored.  When the effect returns and one of its statements
  was refused, among them those \<^verbatim>\<open>updateIssues\<close> does not await, the call
  stores nothing either.  When the effect returns and no statement was
  refused, the call returns \<^verbatim>\<open>null\<close> and commits the rows the effect wrote
  together with the rows of the client group and of the client.  So a call
  either leaves the database as it was, or returns \<^verbatim>\<open>null\<close> with both version
  rows written.
\<close>

theorem processMutation_transaction:
  "(m_id m = cl_lastMutationID (getClientForUpdate ex (m_clientID m)) + 1
        \<and> mutate env m (tx_begin ex) = (Some e, tx) \<longrightarrow>
       processMutation env g m None ex = (Returned (Some e), ex))
   \<and> (m_id m = cl_lastMutationID (getClientForUpdate ex (m_clientID m)) + 1
        \<and> m_name m = ''putIssue''
        \<and> issueWithDescriptionSchema env (m_args m) = Inr (issue, description)
        \<and> putIssue env issue (rowstore ex) = Inr rs
        \<and> putDescription env description rs = Inl e \<longrightarrow>
       processMutation env g m None ex = (Returned (Some e), ex))
   \<and> (m_id m = cl_lastMutationID (getClientForUpdate ex (m_clientID m)) + 1
        \<and> mutate env m (tx_begin ex) = (None, tx)
        \<and> (tx_failed tx \<or> tx_failed (run_pending tx)) \<longrightarrow>
       snd (processMutation env g m None ex) = ex)
   \<and> (m_id m = cl_lastMutationID (getClientForUpdate ex (m_clientID m)) + 1
        \<and> mutate env m (tx_begin ex) = (None, tx)
        \<and> \<not> tx_failed tx \<and> \<not> tx_failed (run_pending tx) \<longrightarrow>
       processMutation env g m None ex =
         (Returned None,
          putClient (putClientGroup (tx_db (run_pending tx))
              \<lparr>cg_id = g, cg_cvrVersion = cg_cvrVersion (getClientGroupForUpdate ex g),
               cg_clientVersion = cg_clientVersion (getClientGroupForUpdate ex g) + 1\<rparr>)
            \<lparr>cl_id = m_clientID m, cl_clientGroupID = g,
             cl_lastMutationID = cl_lastMutationID (getClientForUpdate ex (m_clientID m)) + 1,
             cl_clientVersion = cg_clientVersion (getClientGroupForUpdate ex g) + 1\<rparr>))
   \<and> (snd (processMutation env g m err ex) = ex
      \<or> (fst (processMutation env g m err ex) = Returned None
         \<and> m_id m = cl_lastMutationID (getClientForUpdate ex (m_clientID m)) + 1
         \<and> getClientForUpdate (snd (processMutation env g m err ex)) (m_clientID m)
             = \<lparr>cl_id = m_clientID m, cl_clientGroupID = g, cl_lastMutationID = m_id m,
                cl_clientVersion = cg_clientVersion (getClientGroupForUpdate ex g) + 1\<rparr>
         \<and> getClientGroupForUpdate (snd (processMutation env g m err ex)) g
             = \<lparr>cg_id = g, cg_cvrVersion = cg_cvrVersion (getClientGroupForUpdate ex g),
                cg_clientVersion = cg_clientVersion (getClientGroupForUpdate ex g) + 1\<rparr>))"
proof -
  let ?due = "m_id m = cl_lastMutationID (getClientForUpdate ex (m_clientID m)) + 1"
  have raised: "?due \<and> mutate env m (tx_begin ex) = (Some e, tx) \<longrightarrow>
       processMutation env g m None ex = (Returned (Some e), ex)"
    using processMutation_effect_error[where m=m and ex=ex and env=env and e=e and tx=tx
        and g=g]
    by blast
  have partway: "processMutation env g m None ex = (Returned (Some e), ex)"
    if due: ?due and name: "m_name m = ''putIssue''"
      and parsed: "issueWithDescriptionSchema env (m_args m) = Inr (issue, description)"
      and first: "putIssue env issue (rowstore ex) = Inr rs"
      and second: "putDescription env description rs = Inl e"
  proof -
    have "mutate env m (tx_begin ex)
        = (Some e, \<lparr>tx_db = ex\<lparr>rowstore := rs\<rparr>, tx_failed = True, tx_pending = []\<rparr>)"
      using parsed first second
      by (simp add: mutate_putIssue[OF name] executor_def tx_begin_def)
    with due show ?thesis by (rule processMutation_effect_error)
  qed
  then have partway': "?due \<and> m_name m = ''putIssue''
        \<and> issueWithDescriptionSchema env (m_args m) = Inr (issue, description)
        \<and> putIssue env issue (rowstore ex) = Inr rs
        \<and> putDescription env description rs = Inl e \<longrightarrow>
       processMutation env g m None ex = (Returned (Some e), ex)"
    by blast
  have refused: "?due \<and> mutate env m (tx_begin ex) = (None, tx)
        \<and> (tx_failed tx \<or> tx_failed (run_pending tx)) \<longrightarrow>
       snd (processMutation env g m None ex) = ex"
  proof (intro impI, elim conjE)
    assume due: ?due and returned: "mutate env m (tx_begin ex) = (None, tx)"
      and failed: "tx_failed tx \<or> tx_failed (run_pending tx)"
    from failed show "snd (processMutation env g m None ex) = ex"
      unfolding processMutation_effect_returned[OF due returned] by auto
  qed
  have committed: "?due \<and> mutate env m (tx_begin ex) = (None, tx)
        \<and> \<not> tx_failed tx \<and> \<not> tx_failed (run_pending tx) \<longrightarrow>
       processMutation env g m None ex =
         (Returned None,
          putClient (putClientGroup (tx_db (run_pending tx))
              \<lparr>cg_id = g, cg_cvrVersion = cg_cvrVersion (getClientGroupForUpdate ex g),
               cg_clientVersion = cg_clientVersion (getClientGroupForUpdate ex g) + 1\<rparr>)
            \<lparr>cl_id = m_clientID m, cl_clientGroupID = g,
             cl_lastMutationID = cl_lastMutationID (getClientForUpdate ex (m_clientID m)) + 1,
             cl_clientVersion = cg_clientVersion (getClientGroupForUpdate ex g) + 1\<rparr>)"
  proof (intro impI, elim conjE)
    assume due: ?due and returned: "mutate env m (tx_begin ex) = (None, tx)"
      and ok: "\<not> tx_failed tx" "\<not> tx_failed (run_pending tx)"
    from ok show "processMutation env g m None ex =
         (Returned None,
          putClient (putClientGroup (tx_db (run_pending tx))
              \<lparr>cg_id = g, cg_cvrVersion = cg_cvrVersion (getClientGroupForUpdate ex g),
               cg_clientVersion = cg_clientVersion (getClientGroupForUpdate ex g) + 1\<rparr>)
            \<lparr>cl_id = m_clientID m, cl_clientGroupID = g,
             cl_lastMutationID = cl_lastMutationID (getClientForUpdate ex (m_clientID m)) + 1,
             cl_clientVersion = cg_clientVersion (getClientGroupForUpdate ex g) + 1\<rparr>)"
      unfolding processMutation_effect_returned[OF due returned] by simp
  qed
  note whole = processMutation_all_or_nothing[where env=env and g=g and m=m and err=err
      and ex=ex]
  from raised partway' refused committed whole show ?thesis
    by (intro conjI)
qed

theorem processMutation_transaction_witness:
  "putIssue example_env ''issue9'' (rowstore example_store)
     = Inr ((rowstore example_store)
         (Issue := rowstore example_store Issue
            @ [\<lparr>dr_id = ''issue9'', dr_rowversion = 1, dr_fields = ''issue9''\<rparr>]))
   \<and> processMutation example_env ''g1'' (example_mutation 1 ''putIssue'' ''issue9'') None
       example_store
     = (Returned (Some ''description rejected''), example_store)
   \<and> fst (mutate example_env (example_mutation 1 ''updateIssues'' ''i1xyz'')
        (tx_begin example_store)) = None
   \<and> rowstore (tx_db (snd (mutate example_env (example_mutation 1 ''updateIssues'' ''i1xyz'')
        (tx_begin example_store)))) Issue
     = [\<lparr>dr_id = ''i1'', dr_rowversion = 3, dr_fields = ''i1xyz''\<rparr>,
        \<lparr>dr_id = ''i2'', dr_rowversion = 1, dr_fields = ''second''\<rparr>]
   \<and> snd (processMutation example_env ''g1'' (example_mutation 1 ''updateIssues'' ''i1xyz'')
        None example_store)
     = example_store
   \<and> snd (processMutation example_env ''g1''
        (example_mutation 1 ''updateIssues'' ''i1toolong'') None example_store)
     = example_store
   \<and> fst (processMutation example_env ''g1'' (example_mutation 1 ''updateIssues'' ''i1ab'')
        None example_store)
     = Returned None
   \<and> rowstore (snd (processMutation example_env ''g1''
        (example_mutation 1 ''updateIssues'' ''i1ab'') None example_store)) Issue
     = [\<lparr>dr_id = ''i1'', dr_rowversion = 3, dr_fields = ''i1ab''\<rparr>,
        \<lparr>dr_id = ''i2'', dr_rowversion = 1, dr_fields = ''second''\<rparr>]
   \<and> rowstore (snd (processMutation example_env ''g1''
        (example_mutation 1 ''updateIssues'' ''i1ab'') None example_store)) Description
     = [\<lparr>dr_id = ''i1'', dr_rowversion = 1, dr_fields = ''i1ab''\<rparr>]
   \<and> client (snd (processMutation example_env ''g1''
        (example_mutation 1 ''updateIssues'' ''i1ab'') None example_store)) ''c1''
     = Some \<lparr>cl_id = ''c1'', cl_clientGroupID = ''g1'', cl_lastMutationID = 1,
             cl_clientVersion = 1\<rparr>
   \<and> client_group (snd (processMutation example_env ''g1''
        (example_mutation 1 ''updateIssues'' ''i1ab'') None example_store)) ''g1''
     = Some \<lparr>cg_id = ''g1'', cg_cvrVersion = 0, cg_clientVersion = 1\<rparr>"
proof -
  let ?put = "example_mutation 1 ''putIssue'' ''issue9''"
  let ?rs = "(rowstore example_store)
         (Issue := rowstore example_store Issue
            @ [\<lparr>dr_id = ''issue9'', dr_rowversion = 1, dr_fields = ''issue9''\<rparr>])"
  have due: "m_id (example_mutation 1 n a)
      = cl_lastMutationID (getClientForUpdate example_store
          (m_clientID (example_mutation 1 n a))) + 1" for n a
    by (simp add: example_mutation_def example_next)
  have put_name: "m_name ?put = ''putIssue''"
    by (simp add: example_mutation_def)
  have parsed: "issueWithDescriptionSchema example_env (m_args ?put)
      = Inr (''issue9'', ''issue9'')"
    by (simp add: example_env_def example_mutation_def)
  have first: "putIssue example_env ''issue9'' (rowstore example_store) = Inr ?rs"
    by (simp add: example_env_def)
  have second: "putDescription example_env ''issue9'' ?rs = Inl ''description rejected''"
    by (simp add: example_env_def)
  from processMutation_transaction [where env=example_env and g="''g1''" and m="?put"
      and ex=example_store and issue="''issue9''" and description="''issue9''"
      and rs="?rs" and e="''description rejected''"]
    due put_name parsed first second
  have partway: "processMutation example_env ''g1'' ?put None example_store
      = (Returned (Some ''description rejected''), example_store)"
    by blast

  let ?late = "example_mutation 1 ''updateIssues'' ''i1xyz''"
  let ?tx_late = "snd (mutate example_env ?late (tx_begin example_store))"
  have late_fst: "fst (mutate example_env ?late (tx_begin example_store)) = None"
    by (simp add: mutate_def updateIssues_callback_def executor_def tx_begin_def
        example_env_def example_mutation_def)
  then have late_returned: "mutate example_env ?late (tx_begin example_store)
      = (None, ?tx_late)"
    by (simp add: prod_eq_iff)
  have late_rows: "rowstore (tx_db ?tx_late) Issue
     = [\<lparr>dr_id = ''i1'', dr_rowversion = 3, dr_fields = ''i1xyz''\<rparr>,
        \<lparr>dr_id = ''i2'', dr_rowversion = 1, dr_fields = ''second''\<rparr>]"
    by (simp add: mutate_def updateIssues_callback_def executor_def tx_begin_def
        example_env_def example_mutation_def example_store_def)
  have late_failed: "tx_failed (run_pending ?tx_late)"
    by (simp add: mutate_def updateIssues_callback_def executor_def tx_begin_def
        run_pending_def example_env_def example_mutation_def)
  from processMutation_transaction [where env=example_env and g="''g1''" and m="?late"
      and ex=example_store and tx="?tx_late"]
    due late_returned late_failed
  have late: "snd (processMutation example_env ''g1'' ?late None example_store)
      = example_store"
    by blast

  let ?early = "example_mutation 1 ''updateIssues'' ''i1toolong''"
  let ?tx_early = "snd (mutate example_env ?early (tx_begin example_store))"
  have "fst (mutate example_env ?early (tx_begin example_store)) = None"
    by (simp add: mutate_def updateIssues_callback_def executor_def tx_begin_def
        example_env_def example_mutation_def)
  then have early_returned: "mutate example_env ?early (tx_begin example_store)
      = (None, ?tx_early)"
    by (simp add: prod_eq_iff)
  have early_failed: "tx_failed ?tx_early"
    by (simp add: mutate_def updateIssues_callback_def executor_def tx_begin_def
        example_env_def example_mutation_def)
  from processMutation_transaction [where env=example_env and g="''g1''" and m="?early"
      and ex=example_store and tx="?tx_early"]
    due early_returned early_failed
  have early: "snd (processMutation example_env ''g1'' ?early None example_store)
      = example_store"
    by blast

  let ?ok = "example_mutation 1 ''updateIssues'' ''i1ab''"
  let ?tx_ok = "snd (mutate example_env ?ok (tx_begin example_store))"
  let ?committed = "putClient (putClientGroup (tx_db (run_pending ?tx_ok))
              \<lparr>cg_id = ''g1'',
               cg_cvrVersion = cg_cvrVersion (getClientGroupForUpdate example_store ''g1''),
               cg_clientVersion
                 = cg_clientVersion (getClientGroupForUpdate example_store ''g1'') + 1\<rparr>)
            \<lparr>cl_id = m_clientID ?ok, cl_clientGroupID = ''g1'',
             cl_lastMutationID
               = cl_lastMutationID (getClientForUpdate example_store (m_clientID ?ok)) + 1,
             cl_clientVersion
               = cg_clientVersion (getClientGroupForUpdate example_store ''g1'') + 1\<rparr>"
  have "fst (mutate example_env ?ok (tx_begin example_store)) = None"
    by (simp add: mutate_def updateIssues_callback_def executor_def tx_begin_def
        example_env_def example_mutation_def)
  then have ok_returned: "mutate example_env ?ok (tx_begin example_store) = (None, ?tx_ok)"
    by (simp add: prod_eq_iff)
  have ok_sent: "\<not> tx_failed ?tx_ok"
    by (simp add: mutate_def updateIssues_callback_def executor_def tx_begin_def
        example_env_def example_mutation_def)
  have ok_committed: "\<not> tx_failed (run_pending ?tx_ok)"
    by (simp add: mutate_def updateIssues_callback_def executor_def tx_begin_def
        run_pending_def example_env_def example_mutation_def)
  from processMutation_transaction [where env=example_env and g="''g1''" and m="?ok"
      and ex=example_store and tx="?tx_ok"]
    due ok_returned ok_sent ok_committed
  have ok: "processMutation example_env ''g1'' ?ok None example_store
      = (Returned None, ?committed)"
    by blast
  have ok_issue: "rowstore (tx_db (run_pending ?tx_ok)) Issue
     = [\<lparr>dr_id = ''i1'', dr_rowversion = 3, dr_fields = ''i1ab''\<rparr>,
        \<lparr>dr_id = ''i2'', dr_rowversion = 1, dr_fields = ''second''\<rparr>]"
    by (simp add: mutate_def updateIssues_callback_def executor_def tx_begin_def
        run_pending_def example_env_def example_mutation_def example_store_def)
  have ok_description: "rowstore (tx_db (run_pending ?tx_ok)) Description
     = [\<lparr>dr_id = ''i1'', dr_rowversion = 1, dr_fields = ''i1ab''\<rparr>]"
    by (simp add: mutate_def updateIssues_callback_def executor_def tx_begin_def
        run_pending_def example_env_def example_mutation_def example_store_def)
  have c1: "m_clientID ?ok = ''c1''"
    by (simp add: example_mutation_def)
  have r1: "fst (processMutation example_env ''g1'' ?ok None example_store) = Returned None"
    by (simp add: ok)
  have r2: "rowstore (snd (processMutation example_env ''g1'' ?ok None example_store)) Issue
     = [\<lparr>dr_id = ''i1'', dr_rowversion = 3, dr_fields = ''i1ab''\<rparr>,
        \<lparr>dr_id = ''i2'', dr_rowversion = 1, dr_fields = ''second''\<rparr>]"
    unfolding ok snd_conv put_frame by (rule ok_issue)
  have r3: "rowstore (snd (processMutation example_env ''g1'' ?ok None example_store))
       Description
     = [\<lparr>dr_id = ''i1'', dr_rowversion = 1, dr_fields = ''i1ab''\<rparr>]"
    unfolding ok snd_conv put_frame by (rule ok_description)
  have r4: "client (snd (processMutation example_env ''g1'' ?ok None example_store)) ''c1''
     = Some \<lparr>cl_id = ''c1'', cl_clientGroupID = ''g1'', cl_lastMutationID = 1,
             cl_clientVersion = 1\<rparr>"
    unfolding ok snd_conv put_frame by (simp add: c1 example_next)
  have r5: "client_group (snd (processMutation example_env ''g1'' ?ok None example_store))
       ''g1''
     = Some \<lparr>cg_id = ''g1'', cg_cvrVersion = 0, cg_clientVersion = 1\<rparr>"
    unfolding ok snd_conv put_frame by (simp add: example_next)
  from first partway late_fst late_rows late early r1 r2 r3 r4 r5 show ?thesis
    by (intro conjI)
qed

end
